theory Spec2Isabelle
  imports Main "HOL-Library.AList" "HOL-Library.Char_ord" "HOL-Library.List_Lexorder"
begin

section \<open>The configuration aggregator of sfdxConfigAggregator.ts\<close>

text \<open>
  The aggregator merges three layers of settings: the global settings file, the settings file
  of the project workspace and the environment variables of the process, and answers for a key
  what its value is and where the value comes from. This theory embeds the class
  \<^verbatim>\<open>SfdxConfigAggregator\<close> with the lodash functions it calls, and states its
  properties.

  Scope of the embedding. A JavaScript object is an association list of its own enumerable
  properties in enumeration order, with distinct keys; a new property is appended, an
  assigned one keeps its place (integer-like names, which JavaScript enumerates first, are
  not treated apart). Values are the values of a JSON file without arrays, numbers being
  integers. Strings are ASCII.
\<close>

subsection \<open>JavaScript values\<close>

datatype jsval =
    JNull
  | JBool bool
  | JNum int
  | JStr string
  | JObj "(string \<times> jsval) list"

type_synonym obj = "(string \<times> jsval) list"

text \<open>
  A property read \<^verbatim>\<open>o[k]\<close> yields \<open>None\<close> for \<^verbatim>\<open>undefined\<close>.
  \<open>isNil\<close> is lodash's \<^verbatim>\<open>_.isNil\<close> (null or undefined); \<open>truthy\<close> is the
  conversion to boolean that \<^verbatim>\<open>&&\<close> and \<^verbatim>\<open>if\<close> apply.
\<close>

fun isNil :: "jsval option \<Rightarrow> bool" where
  "isNil None = True"
| "isNil (Some JNull) = True"
| "isNil (Some _) = False"

fun truthy :: "jsval option \<Rightarrow> bool" where
  "truthy None = False"
| "truthy (Some JNull) = False"
| "truthy (Some (JBool b)) = b"
| "truthy (Some (JNum n)) = (n \<noteq> 0)"
| "truthy (Some (JStr s)) = (s \<noteq> [])"
| "truthy (Some (JObj _)) = True"

subsection \<open>lodash: merge\<close>

text \<open>
  \<^verbatim>\<open>_.merge(object, source)\<close> walks the properties of \<open>source\<close> in order. A
  value that is an object is merged recursively into the destination's value when that is
  an object too, and into a fresh object otherwise; any other value (null included; a
  JSON value is never undefined) is assigned.
\<close>

function baseMerge :: "obj \<Rightarrow> obj \<Rightarrow> obj" where
  "baseMerge object [] = object"
| "baseMerge object ((key, srcValue) # source) =
     baseMerge
       (case srcValue of
          JObj src \<Rightarrow>
            AList.update key
              (JObj (baseMerge (case map_of object key of Some (JObj objValue) \<Rightarrow> objValue | _ \<Rightarrow> []) src))
              object
        | _ \<Rightarrow> AList.update key srcValue object)
       source"
  by pat_completeness auto
termination
  by (relation "measure (\<lambda>(object, source). size (JObj source))") auto

definition lodash_merge :: "obj \<Rightarrow> obj \<Rightarrow> obj" where
  "lodash_merge object source = baseMerge object source"

text \<open>
  What one step of the merge assigns to a key: \<open>objValue\<close> is the destination's value
  before the step, \<open>srcValue\<close> the source's.
\<close>

definition mergeValue :: "jsval option \<Rightarrow> jsval \<Rightarrow> jsval" where
  "mergeValue objValue srcValue =
     (case srcValue of
        JObj src \<Rightarrow> JObj (baseMerge (case objValue of Some (JObj d) \<Rightarrow> d | _ \<Rightarrow> []) src)
      | _ \<Rightarrow> srcValue)"

fun isObject :: "jsval \<Rightarrow> bool" where
  "isObject (JObj _) = True"
| "isObject _ = False"

text \<open>
  The overlay in the words of the specification, to compare the merge with: start from the
  first layer and let every later layer overwrite key by key, the value of the last layer
  that holds a key being the key's value.
\<close>

definition shallowOverlay :: "obj list \<Rightarrow> string \<Rightarrow> jsval option" where
  "shallowOverlay layers = foldl (\<lambda>m layer. m ++ map_of layer) Map.empty layers"

subsection \<open>lodash: snakeCase\<close>

definition isUpper :: "char \<Rightarrow> bool" where
  "isUpper c = (let n = (of_char c :: nat) in 65 \<le> n \<and> n \<le> 90)"

definition isLower :: "char \<Rightarrow> bool" where
  "isLower c = (let n = (of_char c :: nat) in 97 \<le> n \<and> n \<le> 122)"

definition isDigit :: "char \<Rightarrow> bool" where
  "isDigit c = (let n = (of_char c :: nat) in 48 \<le> n \<and> n \<le> 57)"

definition toLowerChar :: "char \<Rightarrow> char" where
  "toLowerChar c = (if isUpper c then char_of (of_char c + (32::nat)) else c)"

definition toUpperChar :: "char \<Rightarrow> char" where
  "toUpperChar c = (if isLower c then char_of (of_char c - (32::nat)) else c)"

definition toLowerCase :: "string \<Rightarrow> string" where
  "toLowerCase s = map toLowerChar s"

definition toUpperCase :: "string \<Rightarrow> string" where
  "toUpperCase s = map toUpperChar s"

text \<open>
  Modelled from the spec: lodash is not part of the sources. \<open>wordLength\<close> is the length
  of the word that lodash's word pattern matches at the head of an ASCII string, 0 when
  none starts there: an optional capital with the lower-case letters after it; a run of
  capitals, short of its last one when a lower-case letter follows; an English ordinal
  (\<^verbatim>\<open>1st\<close>, \<^verbatim>\<open>22ND\<close>, \<^verbatim>\<open>4th\<close>) unless a letter of the same case or a
  digit follows; a run of digits. Every other character separates words.
\<close>

definition ordinalCore :: "bool \<Rightarrow> string \<Rightarrow> bool" where
  "ordinalCore upper s =
     (let t = (if upper then toLowerCase (take 3 s) else take 3 s);
          sameCase = (\<lambda>c. if upper then isUpper c else isLower c)
      in length s \<ge> 3 \<and> sameCase (s ! 1) \<and> sameCase (s ! 2) \<and>
         (t = ''1st'' \<or> t = ''2nd'' \<or> t = ''3rd'' \<or>
          (isDigit (hd t) \<and> hd t \<notin> set ''123'' \<and> tl t = ''th'')) \<and>
         (case drop 3 s of
            [] \<Rightarrow> True
          | c # _ \<Rightarrow> \<not> isDigit c \<and> \<not> sameCase c))"

definition wordLength :: "string \<Rightarrow> nat" where
  "wordLength s =
     (case s of
        [] \<Rightarrow> 0
      | c # cs \<Rightarrow>
          if isLower c then length (takeWhile isLower s)
          else if isUpper c then
            (if cs \<noteq> [] \<and> isLower (hd cs) then 1 + length (takeWhile isLower cs)
             else let n = length (takeWhile isUpper s) in
               if drop n s \<noteq> [] \<and> isLower (hd (drop n s)) then n - 1 else n)
          else if isDigit c then
            (let m = length (takeWhile isDigit s) in
               if ordinalCore True (drop (m - 1) s) \<or> ordinalCore False (drop (m - 1) s)
               then m + 2 else m)
          else 0)"

function words :: "string \<Rightarrow> string list" where
  "words s =
     (if s = [] then []
      else let n = wordLength s in
        if n = 0 then words (tl s) else take n s # words (drop n s))"
  by pat_completeness auto
termination
  by (relation "measure length") auto

fun joinWords :: "string list \<Rightarrow> string" where
  "joinWords [] = []"
| "joinWords [w] = w"
| "joinWords (w # ws) = w @ ''_'' @ joinWords ws"

definition snakeCase :: "string \<Rightarrow> string" where
  "snakeCase s = joinWords (map toLowerCase (words (filter (\<lambda>c. c \<noteq> CHR 0x27) s)))"

subsection \<open>The name of a key's environment variable\<close>

definition propertyToEnvName :: "string \<Rightarrow> string" where
  "propertyToEnvName property = ''SFDX_'' @ toUpperCase (snakeCase property)"

subsection \<open>Property reads and lodash: get\<close>

text \<open>
  A read \<^verbatim>\<open>object[name]\<close> on a plain object finds an own property or, failing
  that, a property that every object inherits from \<^verbatim>\<open>Object.prototype\<close>; the
  inherited ones are functions or objects of the runtime, never null. The result of a read
  is undefined, a JSON value or such an object of the runtime.
\<close>

datatype jsref = RUndefined | RValue jsval | RBuiltin

fun isNilRef :: "jsref \<Rightarrow> bool" where
  "isNilRef RUndefined = True"
| "isNilRef (RValue v) = isNil (Some v)"
| "isNilRef RBuiltin = False"

definition objectPrototypeNames :: "string list" where
  "objectPrototypeNames =
     [''constructor'', ''hasOwnProperty'', ''isPrototypeOf'', ''propertyIsEnumerable'',
      ''toLocaleString'', ''toString'', ''valueOf'', ''__proto__'',
      ''__defineGetter__'', ''__defineSetter__'', ''__lookupGetter__'', ''__lookupSetter__'']"

definition getProperty :: "obj \<Rightarrow> string \<Rightarrow> jsref" where
  "getProperty object name =
     (case map_of object name of
        Some v \<Rightarrow> RValue v
      | None \<Rightarrow> if name \<in> set objectPrototypeNames then RBuiltin else RUndefined)"

text \<open>
  \<^verbatim>\<open>_.get(object, path)\<close> with a path given as a string: lodash splits the string
  with the pattern \<^verbatim>\<open>rePropName\<close>, whose three alternatives are tried in this order
  at every position: a run of characters other than \<^verbatim>\<open>.\<close>, \<^verbatim>\<open>[\<close>
  and \<^verbatim>\<open>]\<close>; a bracket holding a number or a quoted string; the empty string
  before a separator that another separator or the end follows. Where none matches, one
  character is skipped.

  \<open>matchNumber\<close> and \<open>matchQuoted\<close> read the text after an opening bracket and yield
  the path element with the number of characters up to and including the closing bracket.
\<close>

definition pathChar :: "char \<Rightarrow> bool" where
  "pathChar c = (c = CHR ''.'' \<or> c = CHR ''['' \<or> c = CHR '']'')"

definition matchNumber :: "string \<Rightarrow> (string \<times> nat) option" where
  "matchNumber s =
     (let sign = (if s \<noteq> [] \<and> hd s = CHR ''-'' then ''-'' else []);
          s1 = drop (length sign) s;
          ds = takeWhile isDigit s1;
          s2 = dropWhile isDigit s1
      in if ds = [] then None
         else case s2 of
           [] \<Rightarrow> None
         | c # s3 \<Rightarrow>
             if c = CHR '']'' then Some (sign @ ds, length sign + length ds + 1)
             else if c = CHR ''.'' then
               (let fs = takeWhile isDigit s3; s4 = dropWhile isDigit s3
                in if fs \<noteq> [] \<and> s4 \<noteq> [] \<and> hd s4 = CHR '']''
                   then Some (sign @ ds @ ''.'' @ fs, length sign + length ds + length fs + 2)
                   else None)
             else None)"

text \<open>
  The body of a quoted string runs to the first quote that no backslash escapes; a backslash
  takes the next character with it, which must not end the line.
\<close>

fun quotedBody :: "char \<Rightarrow> string \<Rightarrow> string option" where
  "quotedBody q [] = None"
| "quotedBody q [c] = (if c = q then Some [] else None)"
| "quotedBody q (c # d # s) =
     (if c = q then Some []
      else if c = CHR 0x5C then
        (if d = CHR 0x0A \<or> d = CHR 0x0D then None
         else map_option (\<lambda>body. c # d # body) (quotedBody q s))
      else map_option (\<lambda>body. c # body) (quotedBody q (d # s)))"

text \<open>The replacement of \<^verbatim>\<open>reEscapeChar\<close>: a backslash goes, one of two stays.\<close>

fun unescape :: "string \<Rightarrow> string" where
  "unescape [] = []"
| "unescape [c] = (if c = CHR 0x5C then [] else [c])"
| "unescape (c # d # s) =
     (if c = CHR 0x5C then (if d = CHR 0x5C then d # unescape s else unescape (d # s))
      else c # unescape (d # s))"

definition matchQuoted :: "string \<Rightarrow> (string \<times> nat) option" where
  "matchQuoted s =
     (case s of
        [] \<Rightarrow> None
      | q # s' \<Rightarrow>
          if q = CHR 0x22 \<or> q = CHR 0x27 then
            (case quotedBody q s' of
               None \<Rightarrow> None
             | Some body \<Rightarrow>
                 (case drop (Suc (length body)) s' of
                    [] \<Rightarrow> None
                  | c # _ \<Rightarrow> if c = CHR '']'' then Some (unescape body, length body + 3) else None))
          else None)"

definition separatorAt :: "string \<Rightarrow> string option" where
  "separatorAt s =
     (case s of
        [] \<Rightarrow> None
      | c # s' \<Rightarrow>
          if c = CHR ''.'' then Some s'
          else if c = CHR ''['' \<and> s' \<noteq> [] \<and> hd s' = CHR '']'' then Some (tl s')
          else None)"

definition emptyMatch :: "string \<Rightarrow> bool" where
  "emptyMatch s =
     (case separatorAt s of
        None \<Rightarrow> False
      | Some rest \<Rightarrow> rest = [] \<or> separatorAt rest \<noteq> None)"

function pathElements :: "string \<Rightarrow> string list" where
  "pathElements s =
     (if s = [] then []
      else if \<not> pathChar (hd s)
        then takeWhile (\<lambda>c. \<not> pathChar c) s #
             pathElements (dropWhile (\<lambda>c. \<not> pathChar c) (tl s))
      else case (if hd s = CHR ''[''
                 then (case matchNumber (tl s) of
                         Some r \<Rightarrow> Some r
                       | None \<Rightarrow> matchQuoted (tl s))
                 else None) of
             Some (element, n) \<Rightarrow> element # pathElements (drop (Suc n) s)
           | None \<Rightarrow>
               if emptyMatch s then [] # pathElements (tl s) else pathElements (tl s))"
  by pat_completeness auto
termination
  apply (relation "measure length")
     apply simp
  subgoal for s by (cases s) (simp_all add: le_imp_less_Suc length_dropWhile_le)
  by auto

declare pathElements.simps [simp del]

definition stringToPath :: "string \<Rightarrow> string list" where
  "stringToPath s =
     (if s \<noteq> [] \<and> hd s = CHR ''.'' then [[]] else []) @ pathElements s"

text \<open>
  \<^verbatim>\<open>baseGet\<close> walks the path while the object is neither null nor undefined, and
  yields undefined when the path is not exhausted. Inside an object the walk is a property
  read. Of a string, a number, a boolean and an object of the runtime only the properties
  inherited from \<^verbatim>\<open>Object.prototype\<close> are modelled, not their own ones (the length
  and the methods of a string): the properties below are stated for keys whose path does not
  lead there.
\<close>

fun baseGet :: "jsref \<Rightarrow> string list \<Rightarrow> jsref" where
  "baseGet object [] = object"
| "baseGet RUndefined (name # path) = RUndefined"
| "baseGet (RValue JNull) (name # path) = RUndefined"
| "baseGet (RValue (JObj object)) (name # path) = baseGet (getProperty object name) path"
| "baseGet _ (name # path) =
     (if name \<in> set objectPrototypeNames then baseGet RBuiltin path else RUndefined)"

text \<open>
  A key is plain when, put between the brackets of \<^verbatim>\<open>contents[...]\<close>, it is one
  path element that names itself, and when no object inherits a property of this name: it
  holds no \<^verbatim>\<open>.\<close>, \<^verbatim>\<open>[\<close> or \<^verbatim>\<open>]\<close>, does not begin
  with a quote and is not a property name of \<^verbatim>\<open>Object.prototype\<close>. The keys of
  the schema are plain.
\<close>

definition plainKey :: "string \<Rightarrow> bool" where
  "plainKey k =
     ((\<forall>c \<in> set k. \<not> pathChar c) \<and>
      (k = [] \<or> (hd k \<noteq> CHR 0x22 \<and> hd k \<noteq> CHR 0x27)) \<and>
      k \<notin> set objectPrototypeNames)"

subsection \<open>The collaborators: settings stores, schema, errors\<close>

text \<open>
  Modelled from the spec: the class \<^verbatim>\<open>SfdxConfig\<close> (the settings store) is not part
  of the sources. A store has the path of its file and a contents mapping; \<open>get\<close> reads
  one key of the contents, \<open>toObject\<close> returns the whole mapping, \<open>getPath\<close> the path,
  and \<^verbatim>\<open>read()\<close> replaces the contents by what the file holds or fails.
  \<^verbatim>\<open>ConfigPropertyMeta\<close> is a descriptor of the schema, of which the aggregator
  reads the key only.
\<close>

record SfdxConfig =
  filePath :: string
  contents :: obj

definition get :: "SfdxConfig \<Rightarrow> string \<Rightarrow> jsval option" where
  "get c k = map_of (contents c) k"

definition toObject :: "SfdxConfig \<Rightarrow> obj" where
  "toObject c = contents c"

definition getPath_store :: "SfdxConfig \<Rightarrow> string" where
  "getPath_store c = filePath c"

record ConfigPropertyMeta =
  key :: string

text \<open>An error has a message and a name, as \<^verbatim>\<open>new SfdxError(message, name)\<close>.\<close>

datatype SfdxError = SfdxError (err_message: string) (err_name: string)

text \<open>
  What a load reads from outside: the outcome of creating the local and the global store,
  the schema's list of allowed properties, the process environment, and for the file at a
  path the outcome of reading it.
\<close>

record world =
  createLocal :: "SfdxError + SfdxConfig"
  createGlobal :: "SfdxError + SfdxConfig"
  getAllowedProperties_schema :: "ConfigPropertyMeta list"
  processEnv :: "string \<Rightarrow> string option"
  readFile :: "string \<Rightarrow> SfdxError + obj"

definition read :: "world \<Rightarrow> SfdxConfig \<Rightarrow> SfdxError + SfdxConfig" where
  "read w c = (case readFile w (filePath c) of
                 Inl err \<Rightarrow> Inl err
               | Inr file \<Rightarrow> Inr (c\<lparr>contents := file\<rparr>))"

subsection \<open>The aggregator\<close>

datatype LOCATIONS = GLOBAL | LOCAL | ENVIRONMENT

text \<open>
  The fields of \<^verbatim>\<open>ConfigInfo\<close>; a location and a path may be null, a value
  undefined. The three predicates of the source are closures over the location.
\<close>

record ConfigInfo =
  ci_key :: string
  ci_location :: "LOCATIONS option"
  ci_value :: "jsval option"
  ci_path :: "string option"

definition isLocal :: "ConfigInfo \<Rightarrow> bool" where
  "isLocal info = (ci_location info = Some LOCAL)"

definition isGlobal :: "ConfigInfo \<Rightarrow> bool" where
  "isGlobal info = (ci_location info = Some GLOBAL)"

definition isEnvVar :: "ConfigInfo \<Rightarrow> bool" where
  "isEnvVar info = (ci_location info = Some ENVIRONMENT)"

text \<open>
  The private fields of the class. A store field is \<open>None\<close> while it is undefined. The
  constructor is protected and \<^verbatim>\<open>create\<close> loads at once, so the other fields of a
  fresh instance are never read before the load assigns them.
\<close>

record SfdxConfigAggregator =
  allowedProperties :: "ConfigPropertyMeta list"
  localConfig :: "SfdxConfig option"
  globalConfig :: "SfdxConfig option"
  envVars :: obj
  config :: obj

definition fresh :: SfdxConfigAggregator where
  "fresh = \<lparr>allowedProperties = [], localConfig = None, globalConfig = None,
            envVars = [], config = []\<rparr>"

text \<open>The reduce of \<^verbatim>\<open>loadProperties\<close> that collects the environment variables.\<close>

definition readEnvVars :: "(string \<Rightarrow> string option) \<Rightarrow> ConfigPropertyMeta list \<Rightarrow> obj" where
  "readEnvVars env properties =
     foldl (\<lambda>obj property.
              case env (propertyToEnvName (key property)) of
                None \<Rightarrow> obj
              | Some val \<Rightarrow> AList.update (key property) (JStr val) obj)
       [] properties"

text \<open>
  The last statement of \<^verbatim>\<open>loadProperties\<close>: every element of \<open>configs\<close> is an
  object, so the filter keeps all of them, and the reduce merges them from left to right
  into a new object.
\<close>

definition mergeConfigs :: "obj list \<Rightarrow> obj" where
  "mergeConfigs configs = foldl (\<lambda>result configElement. lodash_merge result configElement) [] configs"

text \<open>
  \<^verbatim>\<open>loadProperties\<close> returns the error it throws, if any, with the state it leaves:
  every assignment made before the throw stays.
\<close>

definition loadProperties :: "world \<Rightarrow> SfdxConfigAggregator \<Rightarrow> SfdxError option \<times> SfdxConfigAggregator" where
  "loadProperties w this =
     (case (case createLocal w of
              Inr c \<Rightarrow> Inr (this\<lparr>localConfig := Some c\<rparr>)
            | Inl err \<Rightarrow>
                if err_name err \<noteq> ''InvalidProjectWorkspace'' then Inl err else Inr this) of
        Inl err \<Rightarrow> (Some err, this)
      | Inr this1 \<Rightarrow>
         (case createGlobal w of
            Inl err \<Rightarrow> (Some err, this1)
          | Inr g \<Rightarrow>
             let this2 = this1\<lparr>globalConfig := Some g\<rparr>;
                 this3 = this2\<lparr>allowedProperties := getAllowedProperties_schema w\<rparr>;
                 this4 = this3\<lparr>envVars := readEnvVars (processEnv w) (allowedProperties this3)\<rparr>
             in (case read w g of
                   Inl err \<Rightarrow> (Some err, this4)
                 | Inr g' \<Rightarrow>
                    let this5 = this4\<lparr>globalConfig := Some g'\<rparr>;
                        configs = [toObject g']
                    in (case localConfig this5 of
                          None \<Rightarrow>
                            (None, this5\<lparr>config := mergeConfigs (configs @ [envVars this5])\<rparr>)
                        | Some l \<Rightarrow>
                           (case read w l of
                              Inl err \<Rightarrow> (Some err, this5)
                            | Inr l' \<Rightarrow>
                               let this6 = this5\<lparr>localConfig := Some l'\<rparr> in
                               (None, this6\<lparr>config :=
                                  mergeConfigs (configs @ [toObject l'] @ [envVars this6])\<rparr>))))))"

definition create :: "world \<Rightarrow> SfdxError + SfdxConfigAggregator" where
  "create w = (case loadProperties w fresh of
                 (Some err, _) \<Rightarrow> Inl err
               | (None, configAggregator) \<Rightarrow> Inr configAggregator)"


subsection \<open>The queries\<close>

text \<open>
  The private getters \<^verbatim>\<open>getAllowedProperties\<close> and the public ones of the stores
  and the snapshot return the fields; inside the class the queries are written with the
  fields.
\<close>

definition getPropertyValue :: "SfdxConfigAggregator \<Rightarrow> string \<Rightarrow> SfdxError + jsval option" where
  "getPropertyValue this k =
     (if list_ex (\<lambda>element. k = key element) (allowedProperties this)
      then Inr (map_of (config this) k)
      else Inl (SfdxError (''Unknown config key: '' @ k) ''UnknownConfigKey''))"

definition getEnvVars :: "SfdxConfigAggregator \<Rightarrow> string \<Rightarrow> jsval option" where
  "getEnvVars this = map_of (envVars this)"

definition getLocation :: "SfdxConfigAggregator \<Rightarrow> string \<Rightarrow> LOCATIONS option" where
  "getLocation this k =
     (if \<not> isNil (getEnvVars this k) then Some ENVIRONMENT
      else if (case localConfig this of None \<Rightarrow> False | Some l \<Rightarrow> truthy (get l k)) then Some LOCAL
      else if (case globalConfig this of None \<Rightarrow> False | Some g \<Rightarrow> truthy (get g k)) then Some GLOBAL
      else None)"

text \<open>
  \<^verbatim>\<open>_.get(store, `contents[${key}]`)\<close>: undefined for an undefined store; else the
  string (which names no property of the store as a whole) is split into a path, whose
  first element is the property \<^verbatim>\<open>contents\<close> of the store, and the rest of
  the path is walked in the contents.
\<close>

definition lodash_get_contents :: "SfdxConfig option \<Rightarrow> string \<Rightarrow> jsref" where
  "lodash_get_contents store k =
     (case store of
        None \<Rightarrow> RUndefined
      | Some c \<Rightarrow>
          (case stringToPath (''contents['' @ k @ '']'') of
             [] \<Rightarrow> RUndefined
           | name # path \<Rightarrow>
               if name = ''contents'' then baseGet (RValue (JObj (contents c))) path
               else RUndefined))"

text \<open>
  \<^verbatim>\<open>this.envVars[key]\<close> is a read on a plain object. In the branch that returns
  the path of a store, the store is defined, since nothing is found in an undefined store.
\<close>

definition getPath :: "SfdxConfigAggregator \<Rightarrow> string \<Rightarrow> string option" where
  "getPath this k =
     (if \<not> isNilRef (getProperty (envVars this) k) then Some (''$'' @ propertyToEnvName k)
      else if \<not> isNilRef (lodash_get_contents (localConfig this) k)
        then map_option getPath_store (localConfig this)
      else if \<not> isNilRef (lodash_get_contents (globalConfig this) k)
        then map_option getPath_store (globalConfig this)
      else None)"

definition getInfo :: "SfdxConfigAggregator \<Rightarrow> string \<Rightarrow> SfdxError + ConfigInfo" where
  "getInfo this k =
     (let location = getLocation this k in
      case getPropertyValue this k of
        Inl err \<Rightarrow> Inl err
      | Inr v \<Rightarrow> Inr \<lparr>ci_key = k, ci_location = location, ci_value = v, ci_path = getPath this k\<rparr>)"

text \<open>
  \<^verbatim>\<open>_.map\<close> over the keys of the snapshot stops at the first call that throws;
  \<^verbatim>\<open>_.sortBy(info, 'key')\<close> is a stable sort by the key, strings compared by their
  character codes.
\<close>

fun mapInfo :: "SfdxConfigAggregator \<Rightarrow> string list \<Rightarrow> SfdxError + ConfigInfo list" where
  "mapInfo this [] = Inr []"
| "mapInfo this (k # ks) =
     (case getInfo this k of
        Inl err \<Rightarrow> Inl err
      | Inr info \<Rightarrow> (case mapInfo this ks of Inl err \<Rightarrow> Inl err | Inr infos \<Rightarrow> Inr (info # infos)))"

definition getConfigInfo :: "SfdxConfigAggregator \<Rightarrow> SfdxError + ConfigInfo list" where
  "getConfigInfo this =
     (case mapInfo this (map fst (config this)) of
        Inl err \<Rightarrow> Inl err
      | Inr info \<Rightarrow> Inr (sort_key ci_key info))"

definition getLocalConfig :: "SfdxConfigAggregator \<Rightarrow> SfdxConfig option" where
  "getLocalConfig this = localConfig this"

definition getGlobalConfig :: "SfdxConfigAggregator \<Rightarrow> SfdxConfig option" where
  "getGlobalConfig this = globalConfig this"

definition getConfig :: "SfdxConfigAggregator \<Rightarrow> obj" where
  "getConfig this = config this"

text \<open>
  The layers of an aggregator in the order in which \<^verbatim>\<open>loadProperties\<close> collects them
  in \<^verbatim>\<open>configs\<close>: Global, Local if there is one, Environment.
\<close>

definition layers :: "SfdxConfigAggregator \<Rightarrow> obj list" where
  "layers this =
     (case globalConfig this of None \<Rightarrow> [] | Some g \<Rightarrow> [toObject g]) @
     (case localConfig this of None \<Rightarrow> [] | Some l \<Rightarrow> [toObject l]) @
     [envVars this]"

subsection \<open>Example worlds\<close>

text \<open>
  Outside any project workspace: creating the local store fails with
  \<^verbatim>\<open>InvalidProjectWorkspace\<close>; the global file sets the log level and a key that the
  schema does not know; the environment sets \<^verbatim>\<open>SFDX_LOG_LEVEL\<close>.
\<close>

definition world_no_project :: world where
  "world_no_project =
     \<lparr>createLocal = Inl (SfdxError ''not a project workspace'' ''InvalidProjectWorkspace''),
      createGlobal = Inr \<lparr>filePath = ''~/.sfdx/sfdx-config.json'', contents = []\<rparr>,
      getAllowedProperties_schema = [\<lparr>key = ''logLevel''\<rparr>, \<lparr>key = ''apiVersion''\<rparr>],
      processEnv = [''SFDX_LOG_LEVEL'' \<mapsto> ''DEBUG''],
      readFile = (\<lambda>p. Inr [(''logLevel'', JStr ''INFO''), (''totally-unknown-key'', JStr ''x'')])\<rparr>"

text \<open>
  Inside a project: both files exist and hold allowed keys only; the local file switches
  \<^verbatim>\<open>disableTelemetry\<close> off where the global file switches it on.
\<close>

definition world_project :: world where
  "world_project =
     \<lparr>createLocal = Inr \<lparr>filePath = ''./.sfdx/sfdx-config.json'', contents = []\<rparr>,
      createGlobal = Inr \<lparr>filePath = ''~/.sfdx/sfdx-config.json'', contents = []\<rparr>,
      getAllowedProperties_schema =
        [\<lparr>key = ''apiVersion''\<rparr>, \<lparr>key = ''defaultusername''\<rparr>,
         \<lparr>key = ''disableTelemetry''\<rparr>, \<lparr>key = ''logLevel''\<rparr>],
      processEnv = [''SFDX_LOG_LEVEL'' \<mapsto> ''DEBUG''],
      readFile = (\<lambda>p. if p = ''./.sfdx/sfdx-config.json''
                      then Inr [(''logLevel'', JStr ''WARN''), (''defaultusername'', JStr ''alice''),
                                (''disableTelemetry'', JBool False)]
                      else Inr [(''defaultusername'', JStr ''bob''), (''disableTelemetry'', JBool True),
                                (''logLevel'', JStr ''INFO'')])\<rparr>"

text \<open>The aggregators that \<^verbatim>\<open>create\<close> builds in the two worlds.\<close>

definition loaded_no_project :: SfdxConfigAggregator where
  "loaded_no_project = snd (loadProperties world_no_project fresh)"

definition loaded_project :: SfdxConfigAggregator where
  "loaded_project = snd (loadProperties world_project fresh)"

text \<open>
  A project whose two files hold an object under the same key.
\<close>

definition world_nested :: world where
  "world_nested =
     \<lparr>createLocal = Inr \<lparr>filePath = ''./.sfdx/sfdx-config.json'', contents = []\<rparr>,
      createGlobal = Inr \<lparr>filePath = ''~/.sfdx/sfdx-config.json'', contents = []\<rparr>,
      getAllowedProperties_schema = [\<lparr>key = ''defaultusername''\<rparr>],
      processEnv = Map.empty,
      readFile = (\<lambda>p. if p = ''./.sfdx/sfdx-config.json''
                      then Inr [(''defaultusername'', JObj [(''user'', JStr ''alice'')])]
                      else Inr [(''defaultusername'', JObj [(''alias'', JStr ''dev'')])])\<rparr>"

definition loaded_nested :: SfdxConfigAggregator where
  "loaded_nested = snd (loadProperties world_nested fresh)"

text \<open>
  A project whose local file sets two keys to false, one of the schema and one outside it;
  the global file is empty.
\<close>

definition world_falsy :: world where
  "world_falsy =
     \<lparr>createLocal = Inr \<lparr>filePath = ''./.sfdx/sfdx-config.json'', contents = []\<rparr>,
      createGlobal = Inr \<lparr>filePath = ''~/.sfdx/sfdx-config.json'', contents = []\<rparr>,
      getAllowedProperties_schema = [\<lparr>key = ''disableTelemetry''\<rparr>],
      processEnv = Map.empty,
      readFile = (\<lambda>p. if p = ''./.sfdx/sfdx-config.json''
                      then Inr [(''disableTelemetry'', JBool False), (''customFlag'', JBool False)]
                      else Inr [])\<rparr>"

definition loaded_falsy :: SfdxConfigAggregator where
  "loaded_falsy = snd (loadProperties world_falsy fresh)"


text \<open>A project whose local file holds a key with a dot in its name.\<close>

definition world_dotted :: world where
  "world_dotted =
     \<lparr>createLocal = Inr \<lparr>filePath = ''./.sfdx/sfdx-config.json'', contents = []\<rparr>,
      createGlobal = Inr \<lparr>filePath = ''~/.sfdx/sfdx-config.json'', contents = []\<rparr>,
      getAllowedProperties_schema = [\<lparr>key = ''logLevel''\<rparr>],
      processEnv = Map.empty,
      readFile = (\<lambda>p. if p = ''./.sfdx/sfdx-config.json''
                      then Inr [(''org.alias'', JStr ''dev'')]
                      else Inr [])\<rparr>"

definition loaded_dotted :: SfdxConfigAggregator where
  "loaded_dotted = snd (loadProperties world_dotted fresh)"

text \<open>What merging one layer into the snapshot does to the value under a key.\<close>

definition mergeLayer :: "string \<Rightarrow> jsval option \<Rightarrow> obj \<Rightarrow> jsval option" where
  "mergeLayer k acc layer =
     (case map_of layer k of None \<Rightarrow> acc | Some v \<Rightarrow> Some (mergeValue acc v))"

section \<open>Properties\<close>

subsection \<open>The merge\<close>

lemma baseMerge_Cons:
  "baseMerge object ((k, v) # source) =
     baseMerge (AList.update k (mergeValue (map_of object k) v) object) source"
  by (cases v) (simp_all add: mergeValue_def)

lemma mergeValue_scalar: "\<not> isObject v \<Longrightarrow> mergeValue ov v = v"
  by (cases v) (simp_all add: mergeValue_def)

lemma map_of_baseMerge:
  "distinct (map fst source) \<Longrightarrow>
   map_of (baseMerge object source) k =
     (case map_of source k of
        None \<Rightarrow> map_of object k
      | Some sv \<Rightarrow> Some (mergeValue (map_of object k) sv))"
proof (induction source arbitrary: object)
  case Nil
  then show ?case by simp
next
  case (Cons p source)
  obtain k' v where p: "p = (k', v)" by (cases p)
  from Cons.prems p have d: "distinct (map fst source)" and nk: "k' \<notin> fst ` set source" by auto
  from nk have none: "map_of source k' = None" by (simp add: map_of_eq_None_iff)
  show ?case
    unfolding p baseMerge_Cons Cons.IH [OF d]
    using none by (auto simp: update_conv' split: option.splits)
qed

lemma map_of_baseMerge_absent:
  "k \<notin> fst ` set source \<Longrightarrow> map_of (baseMerge object source) k = map_of object k"
proof (induction source arbitrary: object)
  case Nil
  then show ?case by simp
next
  case (Cons p source)
  obtain k' v where p: "p = (k', v)" by (cases p)
  from Cons.prems p have "k \<noteq> k'" "k \<notin> fst ` set source" by auto
  then show ?case unfolding p baseMerge_Cons by (simp add: Cons.IH update_conv')
qed

lemma keys_baseMerge:
  "fst ` set (baseMerge object source) = fst ` set object \<union> fst ` set source"
proof (induction source arbitrary: object)
  case Nil
  then show ?case by simp
next
  case (Cons p source)
  obtain k' v where p: "p = (k', v)" by (cases p)
  show ?case unfolding p baseMerge_Cons Cons.IH by (auto simp: dom_update)
qed

lemma distinct_baseMerge:
  "distinct (map fst object) \<Longrightarrow> distinct (map fst (baseMerge object source))"
proof (induction source arbitrary: object)
  case Nil
  then show ?case by simp
next
  case (Cons p source)
  obtain k' v where p: "p = (k', v)" by (cases p)
  show ?case unfolding p baseMerge_Cons using Cons.prems by (intro Cons.IH distinct_update)
qed

subsection \<open>The environment layer\<close>

lemma map_of_readEnvVars_acc:
  "map_of (foldl (\<lambda>obj property.
              case env (propertyToEnvName (key property)) of
                None \<Rightarrow> obj
              | Some val \<Rightarrow> AList.update (key property) (JStr val) obj) acc properties) k =
   (if k \<in> key ` set properties
    then (case env (propertyToEnvName k) of None \<Rightarrow> map_of acc k | Some val \<Rightarrow> Some (JStr val))
    else map_of acc k)"
  by (induction properties arbitrary: acc) (auto simp: update_conv' split: option.splits)

lemma map_of_readEnvVars:
  "map_of (readEnvVars env properties) k =
   (if k \<in> key ` set properties then map_option JStr (env (propertyToEnvName k)) else None)"
  unfolding readEnvVars_def map_of_readEnvVars_acc by (simp split: option.splits)

lemma distinct_readEnvVars_acc:
  "distinct (map fst acc) \<Longrightarrow>
   distinct (map fst (foldl (\<lambda>obj property.
              case env (propertyToEnvName (key property)) of
                None \<Rightarrow> obj
              | Some val \<Rightarrow> AList.update (key property) (JStr val) obj) acc properties))"
  by (induction properties arbitrary: acc) (auto simp: distinct_update split: option.splits)

lemma distinct_readEnvVars: "distinct (map fst (readEnvVars env properties))"
  unfolding readEnvVars_def by (rule distinct_readEnvVars_acc) simp

subsection \<open>What a load that succeeds leaves\<close>

lemma mergeConfigs_simps:
  "mergeConfigs [a, c] = baseMerge (baseMerge [] a) c"
  "mergeConfigs [a, b, c] = baseMerge (baseMerge (baseMerge [] a) b) c"
  by (simp_all add: mergeConfigs_def lodash_merge_def)

lemma loadProperties_success:
  assumes "loadProperties w this0 = (None, this)"
  shows "allowedProperties this = getAllowedProperties_schema w"
    and "envVars this = readEnvVars (processEnv w) (getAllowedProperties_schema w)"
    and "\<exists>g0 file. createGlobal w = Inr g0 \<and> readFile w (filePath g0) = Inr file \<and>
           globalConfig this = Some (g0\<lparr>contents := file\<rparr>)"
    and "config this =
           mergeConfigs (toObject (the (globalConfig this)) #
                         (case localConfig this of None \<Rightarrow> [] | Some l \<Rightarrow> [toObject l]) @
                         [envVars this])"
    and "case localConfig this of
           None \<Rightarrow> localConfig this0 = None \<and>
                  (\<exists>err. createLocal w = Inl err \<and> err_name err = ''InvalidProjectWorkspace'')
         | Some l \<Rightarrow>
             (\<exists>l0 file. (createLocal w = Inr l0 \<or>
                          (\<exists>err. createLocal w = Inl err \<and> err_name err = ''InvalidProjectWorkspace'' \<and>
                                 localConfig this0 = Some l0)) \<and>
                         readFile w (filePath l0) = Inr file \<and> l = l0\<lparr>contents := file\<rparr>)"
  using assms
  by (auto simp: loadProperties_def Let_def read_def split: sum.splits option.splits if_splits)

lemma snapshot_keys:
  assumes "loadProperties w this0 = (None, this)"
  shows "fst ` set (config this) =
           fst ` set (contents (the (globalConfig this))) \<union>
           (case localConfig this of None \<Rightarrow> {} | Some l \<Rightarrow> fst ` set (contents l)) \<union>
           fst ` set (envVars this)"
  using loadProperties_success(3,4) [OF assms]
  by (auto simp: mergeConfigs_simps keys_baseMerge toObject_def split: option.splits)

lemma allowed_iff: "list_ex (\<lambda>element. k = key element) ps \<longleftrightarrow> k \<in> key ` set ps"
  by (auto simp: list_ex_iff)

subsection \<open>The example aggregators\<close>

lemma loaded_no_project_eq:
  "loaded_no_project =
     \<lparr>allowedProperties = [\<lparr>key = ''logLevel''\<rparr>, \<lparr>key = ''apiVersion''\<rparr>],
      localConfig = None,
      globalConfig = Some \<lparr>filePath = ''~/.sfdx/sfdx-config.json'',
        contents = [(''logLevel'', JStr ''INFO''), (''totally-unknown-key'', JStr ''x'')]\<rparr>,
      envVars = [(''logLevel'', JStr ''DEBUG'')],
      config = [(''logLevel'', JStr ''DEBUG''), (''totally-unknown-key'', JStr ''x'')]\<rparr>"
  by code_simp

lemma load_no_project: "loadProperties world_no_project fresh = (None, loaded_no_project)"
proof -
  have "fst (loadProperties world_no_project fresh) = None" by code_simp
  then show ?thesis by (simp add: loaded_no_project_def prod_eq_iff)
qed

lemma loaded_project_eq:
  "loaded_project =
     \<lparr>allowedProperties =
        [\<lparr>key = ''apiVersion''\<rparr>, \<lparr>key = ''defaultusername''\<rparr>,
         \<lparr>key = ''disableTelemetry''\<rparr>, \<lparr>key = ''logLevel''\<rparr>],
      localConfig = Some \<lparr>filePath = ''./.sfdx/sfdx-config.json'',
        contents = [(''logLevel'', JStr ''WARN''), (''defaultusername'', JStr ''alice''),
                    (''disableTelemetry'', JBool False)]\<rparr>,
      globalConfig = Some \<lparr>filePath = ''~/.sfdx/sfdx-config.json'',
        contents = [(''defaultusername'', JStr ''bob''), (''disableTelemetry'', JBool True),
                    (''logLevel'', JStr ''INFO'')]\<rparr>,
      envVars = [(''logLevel'', JStr ''DEBUG'')],
      config = [(''defaultusername'', JStr ''alice''), (''disableTelemetry'', JBool False),
                (''logLevel'', JStr ''DEBUG'')]\<rparr>"
  by code_simp

lemma load_project: "loadProperties world_project fresh = (None, loaded_project)"
proof -
  have "fst (loadProperties world_project fresh) = None" by code_simp
  then show ?thesis by (simp add: loaded_project_def prod_eq_iff)
qed

subsection \<open>Plain keys\<close>

lemma pathElements_Nil: "pathElements [] = []"
  by (subst pathElements.simps) simp

lemma pathElements_word:
  "s \<noteq> [] \<Longrightarrow> \<not> pathChar (hd s) \<Longrightarrow>
   pathElements s =
     takeWhile (\<lambda>c. \<not> pathChar c) s # pathElements (dropWhile (\<lambda>c. \<not> pathChar c) (tl s))"
  by (subst pathElements.simps) simp

lemma pathElements_closing: "pathElements '']'' = []"
  by (subst pathElements.simps)
     (simp add: pathChar_def emptyMatch_def separatorAt_def pathElements_Nil)

lemma takeWhile_first:
  "c \<notin> set x \<Longrightarrow> takeWhile (\<lambda>a. a \<noteq> c) (x @ c # r) = x"
  by (induction x) auto

lemma split_at_first:
  assumes "x @ c # r = y @ [c]" and "c \<notin> set x" and "c \<notin> set y"
  shows "x = y \<and> r = []"
proof -
  have "takeWhile (\<lambda>a. a \<noteq> c) (x @ c # r) = x"
    using assms(2) by (rule takeWhile_first)
  moreover have "takeWhile (\<lambda>a. a \<noteq> c) (y @ c # []) = y"
    using assms(3) by (rule takeWhile_first)
  ultimately have "x = y" using assms(1) by simp
  with assms(1) show ?thesis by simp
qed

lemma matchNumber_plain:
  assumes plain: "\<forall>c \<in> set k. \<not> pathChar c"
    and m: "matchNumber (k @ '']'') = Some (element, n)"
  shows "element = k \<and> n = Suc (length k)"
proof -
  define s where "s = k @ '']''"
  define sign where "sign = (if s \<noteq> [] \<and> hd s = CHR ''-'' then ''-'' else [])"
  define ds where "ds = takeWhile isDigit (drop (length sign) s)"
  define s2 where "s2 = dropWhile isDigit (drop (length sign) s)"
  have s: "s = sign @ ds @ s2"
  proof -
    have "sign = take (length sign) s"
      by (cases s) (auto simp: sign_def)
    then have "s = sign @ drop (length sign) s"
      by (metis append_take_drop_id)
    then show ?thesis by (simp add: ds_def s2_def)
  qed
  have nodot: "CHR ''.'' \<notin> set s"
    using plain by (auto simp: s_def pathChar_def)
  from m have nonempty: "ds \<noteq> []" and
    cases: "s2 \<noteq> [] \<and> hd s2 = CHR '']'' \<and> element = sign @ ds \<and> n = length sign + length ds + 1
            \<or> s2 \<noteq> [] \<and> hd s2 = CHR ''.''"
    unfolding matchNumber_def Let_def s_def [symmetric] sign_def [symmetric]
      ds_def [symmetric] s2_def [symmetric]
    by (auto split: if_splits list.splits)
  have "\<not> (s2 \<noteq> [] \<and> hd s2 = CHR ''.'')"
  proof
    assume "s2 \<noteq> [] \<and> hd s2 = CHR ''.''"
    then have "CHR ''.'' \<in> set s2" by (cases s2) auto
    then have "CHR ''.'' \<in> set s" by (subst s) simp
    with nodot show False by simp
  qed
  with cases have c: "s2 \<noteq> []" "hd s2 = CHR '']''" "element = sign @ ds"
    "n = length sign + length ds + 1"
    by auto
  then obtain r where r: "s2 = CHR '']'' # r" by (cases s2) auto
  have "CHR '']'' \<notin> set sign" by (simp add: sign_def)
  moreover have "CHR '']'' \<notin> set ds"
  proof
    assume "CHR '']'' \<in> set ds"
    then have "isDigit (CHR '']'')" unfolding ds_def by (rule set_takeWhileD [THEN conjunct2])
    then show False by (simp add: isDigit_def)
  qed
  ultimately have "CHR '']'' \<notin> set (sign @ ds)" by simp
  moreover have "CHR '']'' \<notin> set k" using plain by (auto simp: pathChar_def)
  moreover have "(sign @ ds) @ CHR '']'' # r = k @ [CHR '']'']"
    using s r by (simp add: s_def)
  ultimately have k: "sign @ ds = k"
    using split_at_first [of "sign @ ds" "CHR '']''" r k] by simp
  then have "length sign + length ds = length k" by (metis length_append)
  with c k show ?thesis by simp
qed

lemma matchQuoted_plain:
  "k = [] \<or> (hd k \<noteq> CHR 0x22 \<and> hd k \<noteq> CHR 0x27) \<Longrightarrow> matchQuoted (k @ '']'') = None"
  by (cases k) (auto simp: matchQuoted_def)

lemma pathElements_bracket:
  assumes plain: "\<forall>c \<in> set k. \<not> pathChar c"
    and quote: "k = [] \<or> (hd k \<noteq> CHR 0x22 \<and> hd k \<noteq> CHR 0x27)"
  shows "pathElements (CHR ''['' # k @ '']'') = [k]"
proof (cases "matchNumber (k @ '']'')")
  case (Some r)
  obtain element n where r: "r = (element, n)" by (cases r)
  from matchNumber_plain [OF plain Some [unfolded r]]
  have "element = k" "n = Suc (length k)" by auto
  then show ?thesis
    by (subst pathElements.simps) (simp add: pathChar_def Some r pathElements_Nil)
next
  case None
  show ?thesis
  proof (cases k)
    case Nil
    then show ?thesis
      using None
      by (subst pathElements.simps)
         (simp add: pathChar_def matchQuoted_def emptyMatch_def separatorAt_def
                    pathElements_closing)
  next
    case (Cons c cs)
    with plain have c: "\<not> pathChar c" and cs: "\<forall>c \<in> set cs. \<not> pathChar c" by auto
    have tw: "takeWhile (\<lambda>c. \<not> pathChar c) (k @ '']'') = k"
      using plain by (simp add: takeWhile_append2 pathChar_def)
    have dw: "dropWhile (\<lambda>c. \<not> pathChar c) (tl (k @ '']'')) = '']''"
      using cs by (simp add: Cons dropWhile_append2 pathChar_def)
    have "k @ '']'' \<noteq> []" "\<not> pathChar (hd (k @ '']''))"
      using c by (simp_all add: Cons)
    then have word: "pathElements (k @ '']'') = [k]"
      by (simp add: pathElements_word tw dw pathElements_closing)
    have "separatorAt (CHR ''['' # k @ '']'') = None"
      using c by (simp add: Cons separatorAt_def pathChar_def)
    then have "\<not> emptyMatch (CHR ''['' # k @ '']'')"
      by (simp add: emptyMatch_def)
    then show ?thesis
      using None matchQuoted_plain [OF quote] word
      by (subst pathElements.simps) (simp add: pathChar_def)
  qed
qed

lemma stringToPath_plain:
  assumes "plainKey k"
  shows "stringToPath (''contents['' @ k @ '']'') = [''contents'', k]"
proof -
  from assms have plain: "\<forall>c \<in> set k. \<not> pathChar c"
    and quote: "k = [] \<or> (hd k \<noteq> CHR 0x22 \<and> hd k \<noteq> CHR 0x27)"
    by (simp_all add: plainKey_def)
  have "pathElements (''contents['' @ k @ '']'') = ''contents'' # pathElements (CHR ''['' # k @ '']'')"
    by (subst pathElements_word) (simp_all add: pathChar_def)
  then show ?thesis
    by (simp add: stringToPath_def pathElements_bracket [OF plain quote])
qed

lemma isNilRef_getProperty_plain:
  "plainKey k \<Longrightarrow> isNilRef (getProperty object k) \<longleftrightarrow> isNil (map_of object k)"
  by (cases "map_of object k") (simp_all add: getProperty_def plainKey_def)

lemma isNilRef_lodash_get_contents_plain:
  assumes "plainKey k"
  shows "isNilRef (lodash_get_contents store k) \<longleftrightarrow>
     isNil (case store of None \<Rightarrow> None | Some c \<Rightarrow> get c k)"
proof (cases store)
  case None
  then show ?thesis by (simp add: lodash_get_contents_def)
next
  case (Some c)
  show ?thesis
    unfolding Some lodash_get_contents_def stringToPath_plain [OF assms]
    by (simp add: isNilRef_getProperty_plain [OF assms] get_def)
qed

subsection \<open>Unknown keys\<close>

text \<open>
  Claim C5. \<^verbatim>\<open>getPropertyValue\<close> throws an error named
  \<^verbatim>\<open>UnknownConfigKey\<close> exactly when the key is not among the allowed properties,
  whatever the layers hold: an allowed key yields its entry of the snapshot, and after a load
  in which neither the environment nor a store holds the key that entry is undefined.
\<close>

theorem getPropertyValue_UnknownConfigKey:
  "((\<exists>err. getPropertyValue this k = Inl err \<and> err_name err = ''UnknownConfigKey'') \<longleftrightarrow>
      k \<notin> key ` set (allowedProperties this)) \<and>
   (k \<in> key ` set (allowedProperties this) \<longrightarrow>
      getPropertyValue this k = Inr (map_of (config this) k)) \<and>
   (k \<in> key ` set (allowedProperties this) \<longrightarrow>
    loadProperties w this0 = (None, this) \<longrightarrow>
    processEnv w (propertyToEnvName k) = None \<longrightarrow>
    (\<forall>l. localConfig this = Some l \<longrightarrow> get l k = None) \<longrightarrow>
    (\<forall>g. globalConfig this = Some g \<longrightarrow> get g k = None) \<longrightarrow>
      getPropertyValue this k = Inr None)"
proof (intro conjI impI)
  show "(\<exists>err. getPropertyValue this k = Inl err \<and> err_name err = ''UnknownConfigKey'') \<longleftrightarrow>
      k \<notin> key ` set (allowedProperties this)"
    by (auto simp: getPropertyValue_def allowed_iff)
next
  assume "k \<in> key ` set (allowedProperties this)"
  then show "getPropertyValue this k = Inr (map_of (config this) k)"
    by (simp add: getPropertyValue_def allowed_iff)
next
  assume al: "k \<in> key ` set (allowedProperties this)"
    and load: "loadProperties w this0 = (None, this)"
    and env: "processEnv w (propertyToEnvName k) = None"
    and loc: "\<forall>l. localConfig this = Some l \<longrightarrow> get l k = None"
    and glob: "\<forall>g. globalConfig this = Some g \<longrightarrow> get g k = None"
  from loadProperties_success(3) [OF load] obtain g where g: "globalConfig this = Some g" by auto
  have "k \<notin> fst ` set (envVars this)"
    using env
    by (simp add: loadProperties_success(2) [OF load] map_of_readEnvVars flip: map_of_eq_None_iff)
  moreover have "k \<notin> fst ` set (contents g)"
    using glob g by (simp add: get_def map_of_eq_None_iff)
  moreover have "k \<notin> (case localConfig this of None \<Rightarrow> {} | Some l \<Rightarrow> fst ` set (contents l))"
    using loc by (auto simp: get_def map_of_eq_None_iff split: option.splits)
  ultimately have "k \<notin> fst ` set (config this)"
    using g by (simp add: snapshot_keys [OF load])
  then have "map_of (config this) k = None" by (simp add: map_of_eq_None_iff)
  with al show "getPropertyValue this k = Inr None"
    by (simp add: getPropertyValue_def allowed_iff)
qed

theorem getPropertyValue_UnknownConfigKey_witness:
  "get (the (globalConfig loaded_no_project)) ''totally-unknown-key'' = Some (JStr ''x'') \<and>
   getPropertyValue loaded_no_project ''totally-unknown-key'' =
     Inl (SfdxError ''Unknown config key: totally-unknown-key'' ''UnknownConfigKey'') \<and>
   getPropertyValue loaded_no_project ''logLevel'' = Inr (Some (JStr ''DEBUG'')) \<and>
   getPropertyValue loaded_no_project ''apiVersion'' = Inr None"
proof -
  let ?s = "loaded_no_project"
  have unknown: "''totally-unknown-key'' \<notin> key ` set (allowedProperties ?s)"
    unfolding loaded_no_project_eq by simp
  have known: "''apiVersion'' \<in> key ` set (allowedProperties ?s)"
    "''logLevel'' \<in> key ` set (allowedProperties ?s)"
    unfolding loaded_no_project_eq by simp_all
  have env: "processEnv world_no_project (propertyToEnvName ''apiVersion'') = None"
    by code_simp
  have loc: "\<forall>l. localConfig ?s = Some l \<longrightarrow> get l ''apiVersion'' = None"
    unfolding loaded_no_project_eq by simp
  have glob: "\<forall>g. globalConfig ?s = Some g \<longrightarrow> get g ''apiVersion'' = None"
    unfolding loaded_no_project_eq by (simp add: get_def)
  from getPropertyValue_UnknownConfigKey [of ?s "''totally-unknown-key''"] unknown
  obtain err where e: "getPropertyValue ?s ''totally-unknown-key'' = Inl err" by blast
  have msg: "getPropertyValue ?s ''totally-unknown-key'' =
     Inl (SfdxError ''Unknown config key: totally-unknown-key'' ''UnknownConfigKey'')"
    using e by (simp add: getPropertyValue_def split: if_splits)
  from getPropertyValue_UnknownConfigKey [of ?s "''apiVersion''" world_no_project fresh]
    known env load_no_project loc glob
  have undef: "getPropertyValue ?s ''apiVersion'' = Inr None" by blast
  from getPropertyValue_UnknownConfigKey [of ?s "''logLevel''"] known
  have "getPropertyValue ?s ''logLevel'' = Inr (map_of (config ?s) ''logLevel'')" by blast
  then have lvl: "getPropertyValue ?s ''logLevel'' = Inr (Some (JStr ''DEBUG''))"
    unfolding loaded_no_project_eq by simp
  have g: "get (the (globalConfig ?s)) ''totally-unknown-key'' = Some (JStr ''x'')"
    unfolding loaded_no_project_eq by (simp add: get_def)
  from msg undef lvl g show ?thesis by simp
qed

subsection \<open>Environment variable names and paths\<close>

lemma getEnvVars_loaded:
  assumes "loadProperties w this0 = (None, this)"
  shows "getEnvVars this k =
           (if k \<in> key ` set (allowedProperties this)
            then map_option JStr (processEnv w (propertyToEnvName k)) else None)"
  by (simp add: getEnvVars_def loadProperties_success(1,2) [OF assms] map_of_readEnvVars)

lemma isNil_map_option_JStr: "isNil (map_option JStr x) \<longleftrightarrow> x = None"
  by (cases x) simp_all

lemma isNil_envVars:
  assumes "loadProperties w this0 = (None, this)"
  shows "isNil (map_of (envVars this) k) \<longleftrightarrow> map_of (envVars this) k = None"
  using getEnvVars_loaded [OF assms, of k]
  by (auto simp: getEnvVars_def isNil_map_option_JStr split: if_splits)

lemma isNilRef_getProperty_own:
  "\<not> isNil (map_of object k) \<Longrightarrow> \<not> isNilRef (getProperty object k)"
  by (cases "map_of object k") (simp_all add: getProperty_def)

text \<open>
  Claim C9. The name of a key's environment variable is \<^verbatim>\<open>SFDX_\<close> followed by
  the upper-cased snake case of the key: \<^verbatim>\<open>defaultusername\<close> gives
  \<^verbatim>\<open>SFDX_DEFAULTUSERNAME\<close> and \<^verbatim>\<open>apiVersion\<close> gives
  \<^verbatim>\<open>SFDX_API_VERSION\<close>. A load looks up exactly this name for every allowed
  key, and \<^verbatim>\<open>getPath\<close> displays the same name after a dollar sign for a key
  that the environment holds.
\<close>

theorem propertyToEnvName_lookup_and_display:
  "propertyToEnvName k = ''SFDX_'' @ toUpperCase (snakeCase k) \<and>
   propertyToEnvName ''defaultusername'' = ''SFDX_DEFAULTUSERNAME'' \<and>
   propertyToEnvName ''apiVersion'' = ''SFDX_API_VERSION'' \<and>
   (loadProperties w this0 = (None, this) \<longrightarrow>
      getEnvVars this k =
        (if k \<in> key ` set (allowedProperties this)
         then map_option JStr (processEnv w (propertyToEnvName k)) else None) \<and>
      (getEnvVars this k \<noteq> None \<longrightarrow> getPath this k = Some (''$'' @ propertyToEnvName k)))"
proof (intro conjI impI)
  show "propertyToEnvName k = ''SFDX_'' @ toUpperCase (snakeCase k)"
    by (simp add: propertyToEnvName_def)
  show "propertyToEnvName ''defaultusername'' = ''SFDX_DEFAULTUSERNAME''"
    by code_simp
  show "propertyToEnvName ''apiVersion'' = ''SFDX_API_VERSION''"
    by code_simp
next
  assume load: "loadProperties w this0 = (None, this)"
  show "getEnvVars this k =
        (if k \<in> key ` set (allowedProperties this)
         then map_option JStr (processEnv w (propertyToEnvName k)) else None)"
    by (rule getEnvVars_loaded [OF load])
  assume "getEnvVars this k \<noteq> None"
  then have "\<not> isNil (map_of (envVars this) k)"
    by (simp add: isNil_envVars [OF load] getEnvVars_def)
  then have "\<not> isNilRef (getProperty (envVars this) k)"
    by (rule isNilRef_getProperty_own)
  then show "getPath this k = Some (''$'' @ propertyToEnvName k)"
    by (simp add: getPath_def)
qed

theorem propertyToEnvName_lookup_and_display_witness:
  "processEnv world_project ''SFDX_LOG_LEVEL'' = Some ''DEBUG'' \<and>
   getEnvVars loaded_project ''logLevel'' = Some (JStr ''DEBUG'') \<and>
   getPath loaded_project ''logLevel'' = Some ''$SFDX_LOG_LEVEL''"
proof -
  have name: "propertyToEnvName ''logLevel'' = ''SFDX_LOG_LEVEL''" by code_simp
  have env: "processEnv world_project ''SFDX_LOG_LEVEL'' = Some ''DEBUG''"
    by (simp add: world_project_def)
  have al: "''logLevel'' \<in> key ` set (allowedProperties loaded_project)"
    unfolding loaded_project_eq by simp
  from propertyToEnvName_lookup_and_display [of "''logLevel''" world_project fresh loaded_project]
    load_project
  have a: "getEnvVars loaded_project ''logLevel'' =
        (if ''logLevel'' \<in> key ` set (allowedProperties loaded_project)
         then map_option JStr (processEnv world_project (propertyToEnvName ''logLevel'')) else None)"
    and b: "getEnvVars loaded_project ''logLevel'' \<noteq> None \<longrightarrow>
         getPath loaded_project ''logLevel'' = Some (''$'' @ propertyToEnvName ''logLevel'')"
    by blast+
  from a al have c: "getEnvVars loaded_project ''logLevel'' = Some (JStr ''DEBUG'')"
    by (simp add: name env)
  with b have "getPath loaded_project ''logLevel'' = Some ''$SFDX_LOG_LEVEL''"
    by (simp add: name)
  with c env show ?thesis by simp
qed



text \<open>
  Keys that are not plain are read otherwise. A property name of
  \<^verbatim>\<open>Object.prototype\<close> is found in the object of the environment values by
  inheritance, so its path is a variable name although no layer holds it; a key with a dot
  is split into a path, so the key that the local file holds under this very name is not
  found.
\<close>

lemma getPath_of_other_keys:
  "getEnvVars loaded_no_project ''constructor'' = None \<and>
   getPath loaded_no_project ''constructor'' = Some ''$SFDX_CONSTRUCTOR'' \<and>
   get (the (getLocalConfig loaded_dotted)) ''org.alias'' = Some (JStr ''dev'') \<and>
   getPath loaded_dotted ''org.alias'' = None"
  by code_simp

subsection \<open>Outside a project workspace\<close>

text \<open>
  Claim C8. When creating the local store fails with an error named
  \<^verbatim>\<open>InvalidProjectWorkspace\<close>, \<^verbatim>\<open>create\<close> swallows the error and still
  succeeds (the global store being created and read): the aggregator has no local store,
  its snapshot is the merge of the global contents and the environment values alone, and no
  key has location Local or the path of a local store: a path is a variable name, the path
  of the global store or null, decided for a plain key by the environment values and the
  global contents.
\<close>

theorem create_without_project:
  assumes "createLocal w = Inl err" and "err_name err = ''InvalidProjectWorkspace''"
    and "createGlobal w = Inr g" and "readFile w (filePath g) = Inr file"
  shows "\<exists>this. create w = Inr this \<and>
           getLocalConfig this = None \<and>
           getGlobalConfig this = Some (g\<lparr>contents := file\<rparr>) \<and>
           getConfig this =
             mergeConfigs [file, readEnvVars (processEnv w) (getAllowedProperties_schema w)] \<and>
           (\<forall>k. getLocation this k =
                  (if getEnvVars this k \<noteq> None then Some ENVIRONMENT
                   else if truthy (map_of file k) then Some GLOBAL else None)) \<and>
           (\<forall>k. getPath this k = None \<or>
                getPath this k = Some (''$'' @ propertyToEnvName k) \<or>
                getPath this k = Some (filePath g)) \<and>
           (\<forall>k. plainKey k \<longrightarrow>
                getPath this k =
                  (if getEnvVars this k \<noteq> None then Some (''$'' @ propertyToEnvName k)
                   else if \<not> isNil (map_of file k) then Some (filePath g) else None))"
proof -
  let ?a = "\<lparr>allowedProperties = getAllowedProperties_schema w, localConfig = None,
      globalConfig = Some (g\<lparr>contents := file\<rparr>),
      envVars = readEnvVars (processEnv w) (getAllowedProperties_schema w),
      config = mergeConfigs [file, readEnvVars (processEnv w) (getAllowedProperties_schema w)]\<rparr>"
  have load: "loadProperties w fresh = (None, ?a)"
    using assms
    by (simp add: loadProperties_def fresh_def read_def toObject_def Let_def)
  then have c: "create w = Inr ?a" by (simp add: create_def)
  have nil: "isNil (map_of (envVars ?a) k) \<longleftrightarrow> getEnvVars ?a k = None" for k
    using isNil_envVars [OF load, of k] by (simp add: getEnvVars_def)
  have loc: "getLocation ?a k =
                  (if getEnvVars ?a k \<noteq> None then Some ENVIRONMENT
                   else if truthy (map_of file k) then Some GLOBAL else None)" for k
    using nil [of k] by (simp add: getLocation_def getEnvVars_def get_def)
  have range: "getPath ?a k = None \<or>
                getPath ?a k = Some (''$'' @ propertyToEnvName k) \<or>
                getPath ?a k = Some (filePath g)" for k
    by (simp add: getPath_def lodash_get_contents_def getPath_store_def)
  have path: "getPath ?a k =
                  (if getEnvVars ?a k \<noteq> None then Some (''$'' @ propertyToEnvName k)
                   else if \<not> isNil (map_of file k) then Some (filePath g) else None)"
    if "plainKey k" for k
    unfolding getPath_def isNilRef_getProperty_plain [OF that]
      isNilRef_lodash_get_contents_plain [OF that]
    using nil [of k]
    by (simp add: getEnvVars_def get_def getPath_store_def)
  show ?thesis
    unfolding c using loc range path
    by (intro exI [of _ ?a]) (simp add: getLocalConfig_def getGlobalConfig_def getConfig_def)
qed

theorem create_without_project_witness:
  "create world_no_project = Inr loaded_no_project \<and>
   getLocalConfig loaded_no_project = None \<and>
   getConfig loaded_no_project = [(''logLevel'', JStr ''DEBUG''), (''totally-unknown-key'', JStr ''x'')] \<and>
   getLocation loaded_no_project ''logLevel'' = Some ENVIRONMENT \<and>
   getLocation loaded_no_project ''totally-unknown-key'' = Some GLOBAL \<and>
   getPath loaded_no_project ''totally-unknown-key'' = Some ''~/.sfdx/sfdx-config.json''"
proof -
  let ?g = "\<lparr>filePath = ''~/.sfdx/sfdx-config.json'', contents = []\<rparr>"
  let ?file = "[(''logLevel'', JStr ''INFO''), (''totally-unknown-key'', JStr ''x'')]"
  have h: "createLocal world_no_project =
             Inl (SfdxError ''not a project workspace'' ''InvalidProjectWorkspace'')"
    "err_name (SfdxError ''not a project workspace'' ''InvalidProjectWorkspace'') =
       ''InvalidProjectWorkspace''"
    "createGlobal world_no_project = Inr ?g"
    "readFile world_no_project (filePath ?g) = Inr ?file"
    by (simp_all add: world_no_project_def)
  from create_without_project [OF h]
  obtain this where c: "create world_no_project = Inr this"
    and l: "getLocalConfig this = None"
    and loc: "\<forall>k. getLocation this k =
                  (if getEnvVars this k \<noteq> None then Some ENVIRONMENT
                   else if truthy (map_of ?file k) then Some GLOBAL else None)"
    and path: "\<forall>k. plainKey k \<longrightarrow>
                getPath this k =
                  (if getEnvVars this k \<noteq> None then Some (''$'' @ propertyToEnvName k)
                   else if \<not> isNil (map_of ?file k) then Some (filePath ?g) else None)"
    by blast
  have "create world_no_project = Inr loaded_no_project"
    by (simp add: create_def load_no_project)
  with c have eq: "this = loaded_no_project" by simp
  have p: "plainKey ''totally-unknown-key''"
    by (simp add: plainKey_def pathChar_def objectPrototypeNames_def)
  have e: "getEnvVars loaded_no_project ''logLevel'' = Some (JStr ''DEBUG'')"
    "getEnvVars loaded_no_project ''totally-unknown-key'' = None"
    by (simp_all add: loaded_no_project_eq getEnvVars_def)
  from l loc path [rule_format, OF p] show ?thesis
    unfolding eq
    by (simp add: create_def load_no_project e)
       (simp add: loaded_no_project_eq getConfig_def)
qed

subsection \<open>Truthiness for the location, presence for the value\<close>

lemma snapshot_local_scalar:
  assumes load: "loadProperties w this0 = (None, this)"
    and l: "localConfig this = Some l" and d: "distinct (map fst (contents l))"
    and v: "map_of (contents l) k = Some v" and s: "\<not> isObject v"
    and e: "map_of (envVars this) k = None"
  shows "map_of (config this) k = Some v"
proof -
  from loadProperties_success(3) [OF load] obtain g where g: "globalConfig this = Some g" by auto
  have "config this = baseMerge (baseMerge (baseMerge [] (contents g)) (contents l)) (envVars this)"
    using loadProperties_success(4) [OF load] g l by (simp add: mergeConfigs_simps toObject_def)
  moreover have "distinct (map fst (envVars this))"
    by (simp add: loadProperties_success(2) [OF load] distinct_readEnvVars)
  ultimately show ?thesis
    using d v s e by (simp add: map_of_baseMerge mergeValue_scalar)
qed

text \<open>
  Claim C6. If the local file sets a key to false, the global file sets it to true and the
  environment does not hold it, then \<^verbatim>\<open>getLocation\<close> answers Global, because the
  false of Local is skipped, while the snapshot holds Local's false, which
  \<^verbatim>\<open>getPropertyValue\<close> returns for a key of the schema.
\<close>

theorem location_skips_false_value_keeps:
  assumes "loadProperties w this0 = (None, this)"
    and "getLocalConfig this = Some l" and "distinct (map fst (contents l))"
    and "get l k = Some (JBool False)"
    and "getGlobalConfig this = Some g" and "get g k = Some (JBool True)"
    and "getEnvVars this k = None"
  shows "getLocation this k = Some GLOBAL \<and>
         map_of (getConfig this) k = Some (JBool False) \<and>
         (k \<in> key ` set (allowedProperties this) \<longrightarrow>
            getPropertyValue this k = Inr (Some (JBool False)))"
proof -
  have loc: "getLocation this k = Some GLOBAL"
    using assms(2,4,5,6,7)
    by (simp add: getLocation_def getLocalConfig_def getGlobalConfig_def)
  have l: "localConfig this = Some l" using assms(2) by (simp add: getLocalConfig_def)
  have v: "map_of (contents l) k = Some (JBool False)" using assms(4) by (simp add: get_def)
  have e: "map_of (envVars this) k = None" using assms(7) by (simp add: getEnvVars_def)
  have snap: "map_of (config this) k = Some (JBool False)"
    by (rule snapshot_local_scalar [OF assms(1) l assms(3) v _ e]) simp
  from loc snap show ?thesis
    by (simp add: getConfig_def getPropertyValue_def allowed_iff)
qed

theorem location_skips_false_value_keeps_witness:
  "get (the (getLocalConfig loaded_project)) ''disableTelemetry'' = Some (JBool False) \<and>
   get (the (getGlobalConfig loaded_project)) ''disableTelemetry'' = Some (JBool True) \<and>
   getLocation loaded_project ''disableTelemetry'' = Some GLOBAL \<and>
   getPropertyValue loaded_project ''disableTelemetry'' = Inr (Some (JBool False))"
proof -
  let ?l = "\<lparr>filePath = ''./.sfdx/sfdx-config.json'',
        contents = [(''logLevel'', JStr ''WARN''), (''defaultusername'', JStr ''alice''),
                    (''disableTelemetry'', JBool False)]\<rparr>"
  let ?g = "\<lparr>filePath = ''~/.sfdx/sfdx-config.json'',
        contents = [(''defaultusername'', JStr ''bob''), (''disableTelemetry'', JBool True),
                    (''logLevel'', JStr ''INFO'')]\<rparr>"
  have l: "getLocalConfig loaded_project = Some ?l"
    by (simp add: loaded_project_eq getLocalConfig_def)
  have g: "getGlobalConfig loaded_project = Some ?g"
    by (simp add: loaded_project_eq getGlobalConfig_def)
  have d: "distinct (map fst (contents ?l))" by simp
  have lv: "get ?l ''disableTelemetry'' = Some (JBool False)" by (simp add: get_def)
  have gv: "get ?g ''disableTelemetry'' = Some (JBool True)" by (simp add: get_def)
  have e: "getEnvVars loaded_project ''disableTelemetry'' = None"
    by (simp add: loaded_project_eq getEnvVars_def)
  have al: "''disableTelemetry'' \<in> key ` set (allowedProperties loaded_project)"
    by (simp add: loaded_project_eq)
  from location_skips_false_value_keeps [OF load_project l d lv g gv e] al l g lv gv
  show ?thesis by simp
qed

subsection \<open>The precedence of the layers\<close>

lemma map_of_fold_baseMerge:
  "\<forall>layer \<in> set ls. distinct (map fst layer) \<Longrightarrow>
   map_of (foldl lodash_merge acc ls) k = foldl (mergeLayer k) (map_of acc k) ls"
  by (induction ls arbitrary: acc)
     (simp_all add: lodash_merge_def map_of_baseMerge mergeLayer_def)

lemma mergeLayer_overlay:
  "\<forall>layer \<in> set ls. \<forall>v. map_of layer k = Some v \<longrightarrow> \<not> isObject v \<Longrightarrow>
   foldl (mergeLayer k) (m k) ls = foldl (\<lambda>m layer. m ++ map_of layer) m ls k"
proof (induction ls arbitrary: m)
  case Nil
  then show ?case by simp
next
  case (Cons layer ls)
  have "mergeLayer k (m k) layer = (m ++ map_of layer) k"
    using Cons.prems
    by (auto simp: mergeLayer_def map_add_def mergeValue_scalar split: option.splits)
  then show ?case using Cons.IH [of "m ++ map_of layer"] Cons.prems by simp
qed

lemma layers_loaded:
  assumes "loadProperties w this0 = (None, this)"
  shows "config this = mergeConfigs (layers this)"
    and "\<exists>front. layers this = front @ [envVars this]"
  using loadProperties_success(3,4) [OF assms]
  by (auto simp: layers_def split: option.splits)

lemma loaded_nested_eq:
  "loaded_nested =
     \<lparr>allowedProperties = [\<lparr>key = ''defaultusername''\<rparr>],
      localConfig = Some \<lparr>filePath = ''./.sfdx/sfdx-config.json'',
        contents = [(''defaultusername'', JObj [(''user'', JStr ''alice'')])]\<rparr>,
      globalConfig = Some \<lparr>filePath = ''~/.sfdx/sfdx-config.json'',
        contents = [(''defaultusername'', JObj [(''alias'', JStr ''dev'')])]\<rparr>,
      envVars = [],
      config = [(''defaultusername'', JObj [(''alias'', JStr ''dev''), (''user'', JStr ''alice'')])]\<rparr>"
  by code_simp

lemma load_nested: "loadProperties world_nested fresh = (None, loaded_nested)"
proof -
  have "fst (loadProperties world_nested fresh) = None" by code_simp
  then show ?thesis by (simp add: loaded_nested_def prod_eq_iff)
qed

text \<open>
  Claim C1. After a load, for a key of the schema whose values in the layers are scalars
  (strings and booleans as documented; numbers and null as well), the keys of a file being
  distinct: the resolved value is the value of the shallow overlay of Global's contents,
  then Local's contents, then the Environment values, each later layer overwriting key by
  key. So the value of the Environment wins if there is one, else Local's, else Global's;
  a key set in all three layers resolves to the Environment value.
\<close>

theorem getPropertyValue_precedence:
  assumes "loadProperties w this0 = (None, this)"
    and "k \<in> key ` set (allowedProperties this)"
    and "\<forall>layer \<in> set (layers this). distinct (map fst layer)"
    and "\<forall>layer \<in> set (layers this). \<forall>v. map_of layer k = Some v \<longrightarrow> \<not> isObject v"
  shows "getPropertyValue this k = Inr (shallowOverlay (layers this) k) \<and>
         getPropertyValue this k =
           Inr (case getEnvVars this k of
                  Some v \<Rightarrow> Some v
                | None \<Rightarrow>
                   (case (case getLocalConfig this of None \<Rightarrow> None | Some l \<Rightarrow> get l k) of
                      Some v \<Rightarrow> Some v
                    | None \<Rightarrow> (case getGlobalConfig this of None \<Rightarrow> None | Some g \<Rightarrow> get g k))) \<and>
         (\<forall>e l g lv gv. getEnvVars this k = Some e \<and>
            getLocalConfig this = Some l \<and> get l k = Some lv \<and>
            getGlobalConfig this = Some g \<and> get g k = Some gv \<longrightarrow>
              getPropertyValue this k = Inr (Some e))"
proof -
  have val: "getPropertyValue this k = Inr (map_of (config this) k)"
    using assms(2) by (simp add: getPropertyValue_def allowed_iff)
  have merged: "getPropertyValue this k = Inr (foldl (mergeLayer k) None (layers this))"
    unfolding val layers_loaded(1) [OF assms(1)] mergeConfigs_def
    using map_of_fold_baseMerge [OF assms(3), of "[]" k] by simp
  have overlay: "getPropertyValue this k = Inr (shallowOverlay (layers this) k)"
    using mergeLayer_overlay [OF assms(4), of Map.empty]
    unfolding merged shallowOverlay_def by simp
  from loadProperties_success(3) [OF assms(1)] obtain g where g: "globalConfig this = Some g"
    by auto
  have order: "shallowOverlay (layers this) k =
           (case getEnvVars this k of
                  Some v \<Rightarrow> Some v
                | None \<Rightarrow>
                   (case (case getLocalConfig this of None \<Rightarrow> None | Some l \<Rightarrow> get l k) of
                      Some v \<Rightarrow> Some v
                    | None \<Rightarrow> (case getGlobalConfig this of None \<Rightarrow> None | Some g \<Rightarrow> get g k)))"
    using g
    by (simp add: shallowOverlay_def layers_def toObject_def getEnvVars_def getLocalConfig_def
                  getGlobalConfig_def get_def map_add_def
             split: option.splits)
  from overlay order show ?thesis by simp
qed

theorem getPropertyValue_precedence_witness:
  "get (the (getGlobalConfig loaded_project)) ''logLevel'' = Some (JStr ''INFO'') \<and>
   get (the (getLocalConfig loaded_project)) ''logLevel'' = Some (JStr ''WARN'') \<and>
   getEnvVars loaded_project ''logLevel'' = Some (JStr ''DEBUG'') \<and>
   getPropertyValue loaded_project ''logLevel'' = Inr (Some (JStr ''DEBUG'')) \<and>
   getPropertyValue loaded_project ''defaultusername'' = Inr (Some (JStr ''alice''))"
proof -
  let ?l = "\<lparr>filePath = ''./.sfdx/sfdx-config.json'',
        contents = [(''logLevel'', JStr ''WARN''), (''defaultusername'', JStr ''alice''),
                    (''disableTelemetry'', JBool False)]\<rparr>"
  let ?g = "\<lparr>filePath = ''~/.sfdx/sfdx-config.json'',
        contents = [(''defaultusername'', JStr ''bob''), (''disableTelemetry'', JBool True),
                    (''logLevel'', JStr ''INFO'')]\<rparr>"
  have al: "''logLevel'' \<in> key ` set (allowedProperties loaded_project)"
    "''defaultusername'' \<in> key ` set (allowedProperties loaded_project)"
    by (simp_all add: loaded_project_eq)
  have d: "\<forall>layer \<in> set (layers loaded_project). distinct (map fst layer)"
    by (simp add: loaded_project_eq layers_def toObject_def)
  have sc: "\<forall>layer \<in> set (layers loaded_project). \<forall>v.
      map_of layer ''logLevel'' = Some v \<longrightarrow> \<not> isObject v"
    "\<forall>layer \<in> set (layers loaded_project). \<forall>v.
      map_of layer ''defaultusername'' = Some v \<longrightarrow> \<not> isObject v"
    by (simp_all add: loaded_project_eq layers_def toObject_def)
  have l: "getLocalConfig loaded_project = Some ?l"
    and g: "getGlobalConfig loaded_project = Some ?g"
    by (simp_all add: loaded_project_eq getLocalConfig_def getGlobalConfig_def)
  have e: "getEnvVars loaded_project ''logLevel'' = Some (JStr ''DEBUG'')"
    "getEnvVars loaded_project ''defaultusername'' = None"
    by (simp_all add: loaded_project_eq getEnvVars_def)
  have lv: "get ?l ''logLevel'' = Some (JStr ''WARN'')"
    and gv: "get ?g ''logLevel'' = Some (JStr ''INFO'')"
    by (simp_all add: get_def)
  from getPropertyValue_precedence [OF load_project al(1) d sc(1)] e(1) l lv g gv
  have a: "getPropertyValue loaded_project ''logLevel'' = Inr (Some (JStr ''DEBUG''))"
    by blast
  from getPropertyValue_precedence [OF load_project al(2) d sc(2), THEN conjunct2, THEN conjunct1]
  have b: "getPropertyValue loaded_project ''defaultusername'' = Inr (Some (JStr ''alice''))"
    by (simp add: e(2) l g get_def)
  from a b e(1) l g lv gv show ?thesis by simp
qed

text \<open>
  The overlay is shallow for the documented values only: lodash's merge recurses into
  objects, so that objects held under one key by the global and the local file would be
  merged and not replaced.
\<close>

lemma merge_of_nested_objects:
  "create world_nested = Inr loaded_nested \<and>
   get (the (getGlobalConfig loaded_nested)) ''defaultusername'' = Some (JObj [(''alias'', JStr ''dev'')]) \<and>
   get (the (getLocalConfig loaded_nested)) ''defaultusername'' = Some (JObj [(''user'', JStr ''alice'')]) \<and>
   getPropertyValue loaded_nested ''defaultusername'' =
     Inr (Some (JObj [(''alias'', JStr ''dev''), (''user'', JStr ''alice'')]))"
proof -
  have c: "create world_nested = Inr loaded_nested"
    by (simp add: create_def load_nested)
  have v: "getPropertyValue loaded_nested ''defaultusername'' =
     Inr (Some (JObj [(''alias'', JStr ''dev''), (''user'', JStr ''alice'')]))"
    by (simp add: loaded_nested_eq getPropertyValue_def)
  from c v show ?thesis
    by (simp add: get_def) (simp add: loaded_nested_eq getGlobalConfig_def getLocalConfig_def)
qed

subsection \<open>Provenance\<close>

lemma truthy_in_keys: "truthy (map_of al k) \<Longrightarrow> k \<in> fst ` set al"
  by (cases "map_of al k") (auto dest: map_of_SomeD intro: rev_image_eqI)

lemma loaded_falsy_eq:
  "loaded_falsy =
     \<lparr>allowedProperties = [\<lparr>key = ''disableTelemetry''\<rparr>],
      localConfig = Some \<lparr>filePath = ''./.sfdx/sfdx-config.json'',
        contents = [(''disableTelemetry'', JBool False), (''customFlag'', JBool False)]\<rparr>,
      globalConfig = Some \<lparr>filePath = ''~/.sfdx/sfdx-config.json'', contents = []\<rparr>,
      envVars = [],
      config = [(''disableTelemetry'', JBool False), (''customFlag'', JBool False)]\<rparr>"
  by code_simp

lemma load_falsy: "loadProperties world_falsy fresh = (None, loaded_falsy)"
proof -
  have "fst (loadProperties world_falsy fresh) = None" by code_simp
  then show ?thesis by (simp add: loaded_falsy_def prod_eq_iff)
qed

text \<open>
  Claim C2, as stated, fails: a key of the snapshot whose only value is false has no
  location at all.
\<close>

theorem location_of_snapshot_key_counterexample:
  "create world_falsy = Inr loaded_falsy \<and>
   map_of (getConfig loaded_falsy) ''disableTelemetry'' = Some (JBool False) \<and>
   getLocation loaded_falsy ''disableTelemetry'' = None"
  by (simp add: create_def load_falsy)
     (simp add: loaded_falsy_eq getConfig_def getLocation_def getEnvVars_def get_def)

text \<open>
  Claim C2, amended. \<^verbatim>\<open>getLocation\<close> reports at most one source, by the
  precedence Environment, Local, Global: Environment if the environment layer holds a
  non-nil value for the key, else Local if the local store holds a truthy value for it, else
  Global if the global store holds a truthy value, else none. A source it reports is a layer
  that holds the key. After a load that succeeded, the environment layer holds no nil
  value, a key with a reported source is a key of the snapshot, and no source is reported
  exactly when the environment does not hold the key and no store holds a truthy value,
  also for a key that is in the snapshot with a falsy value.
\<close>

theorem getLocation_provenance:
  "getLocation this k =
     (if \<not> isNil (getEnvVars this k) then Some ENVIRONMENT
      else if \<exists>l. getLocalConfig this = Some l \<and> truthy (get l k) then Some LOCAL
      else if \<exists>g. getGlobalConfig this = Some g \<and> truthy (get g k) then Some GLOBAL
      else None) \<and>
   (getLocation this k = Some ENVIRONMENT \<longrightarrow> k \<in> fst ` set (envVars this)) \<and>
   (getLocation this k = Some LOCAL \<longrightarrow>
      (\<exists>l. getLocalConfig this = Some l \<and> k \<in> fst ` set (toObject l))) \<and>
   (getLocation this k = Some GLOBAL \<longrightarrow>
      (\<exists>g. getGlobalConfig this = Some g \<and> k \<in> fst ` set (toObject g))) \<and>
   (loadProperties w this0 = (None, this) \<longrightarrow>
      (isNil (getEnvVars this k) \<longleftrightarrow> getEnvVars this k = None) \<and>
      (getLocation this k \<noteq> None \<longrightarrow> k \<in> fst ` set (getConfig this)) \<and>
      (getLocation this k = None \<longleftrightarrow>
         getEnvVars this k = None \<and>
         (\<forall>l. getLocalConfig this = Some l \<longrightarrow> \<not> truthy (get l k)) \<and>
         (\<forall>g. getGlobalConfig this = Some g \<longrightarrow> \<not> truthy (get g k))))"
proof -
  have order: "getLocation this k =
     (if \<not> isNil (getEnvVars this k) then Some ENVIRONMENT
      else if \<exists>l. getLocalConfig this = Some l \<and> truthy (get l k) then Some LOCAL
      else if \<exists>g. getGlobalConfig this = Some g \<and> truthy (get g k) then Some GLOBAL
      else None)"
    by (auto simp: getLocation_def getLocalConfig_def getGlobalConfig_def split: option.splits)
  have env: "getLocation this k = Some ENVIRONMENT \<longrightarrow> k \<in> fst ` set (envVars this)"
    by (cases "map_of (envVars this) k")
       (auto simp: getLocation_def getEnvVars_def dest: map_of_SomeD intro: rev_image_eqI
             split: if_splits)
  have loc: "getLocation this k = Some LOCAL \<longrightarrow>
            (\<exists>l. getLocalConfig this = Some l \<and> k \<in> fst ` set (toObject l))"
    by (auto simp: getLocation_def getLocalConfig_def toObject_def get_def
             dest: truthy_in_keys split: if_splits option.splits)
  have glob: "getLocation this k = Some GLOBAL \<longrightarrow>
            (\<exists>g. getGlobalConfig this = Some g \<and> k \<in> fst ` set (toObject g))"
    by (auto simp: getLocation_def getGlobalConfig_def toObject_def get_def
             dest: truthy_in_keys split: if_splits option.splits)
  have loaded: "(isNil (getEnvVars this k) \<longleftrightarrow> getEnvVars this k = None) \<and>
      (getLocation this k \<noteq> None \<longrightarrow> k \<in> fst ` set (getConfig this)) \<and>
      (getLocation this k = None \<longleftrightarrow>
         getEnvVars this k = None \<and>
         (\<forall>l. getLocalConfig this = Some l \<longrightarrow> \<not> truthy (get l k)) \<and>
         (\<forall>g. getGlobalConfig this = Some g \<longrightarrow> \<not> truthy (get g k)))"
    if load: "loadProperties w this0 = (None, this)"
  proof -
    have nil: "isNil (getEnvVars this k) \<longleftrightarrow> getEnvVars this k = None"
      using isNil_envVars [OF load, of k] by (simp add: getEnvVars_def)
    have snap: "getLocation this k \<noteq> None \<longrightarrow> k \<in> fst ` set (getConfig this)"
    proof
      assume "getLocation this k \<noteq> None"
      then obtain src where s: "getLocation this k = Some src" by auto
      from loadProperties_success(3) [OF load] obtain g where g: "globalConfig this = Some g"
        by auto
      show "k \<in> fst ` set (getConfig this)"
        using s env loc glob g
        unfolding getConfig_def snapshot_keys [OF load] getLocalConfig_def
          getGlobalConfig_def toObject_def
        by (cases src) force+
    qed
    have none: "getLocation this k = None \<longleftrightarrow>
            getEnvVars this k = None \<and>
            (\<forall>l. getLocalConfig this = Some l \<longrightarrow> \<not> truthy (get l k)) \<and>
            (\<forall>g. getGlobalConfig this = Some g \<longrightarrow> \<not> truthy (get g k))"
      unfolding order using nil by auto
    from nil snap none show ?thesis by blast
  qed
  from order env loc glob loaded show ?thesis by blast
qed

theorem getLocation_provenance_witness:
  "getEnvVars loaded_project ''logLevel'' = Some (JStr ''DEBUG'') \<and>
   truthy (get (the (getLocalConfig loaded_project)) ''logLevel'') \<and>
   truthy (get (the (getGlobalConfig loaded_project)) ''logLevel'') \<and>
   getLocation loaded_project ''logLevel'' = Some ENVIRONMENT \<and>
   ''logLevel'' \<in> fst ` set (envVars loaded_project) \<and>
   getLocation loaded_project ''defaultusername'' = Some LOCAL \<and>
   ''defaultusername'' \<in> fst ` set (toObject (the (getLocalConfig loaded_project))) \<and>
   getLocation loaded_project ''disableTelemetry'' = Some GLOBAL \<and>
   ''disableTelemetry'' \<in> fst ` set (toObject (the (getGlobalConfig loaded_project))) \<and>
   ''disableTelemetry'' \<in> fst ` set (getConfig loaded_project) \<and>
   getLocation loaded_project ''apiVersion'' = None"
proof -
  have layers: "getEnvVars loaded_project ''logLevel'' = Some (JStr ''DEBUG'')"
    "truthy (get (the (getLocalConfig loaded_project)) ''logLevel'')"
    "truthy (get (the (getGlobalConfig loaded_project)) ''logLevel'')"
    by (simp_all add: loaded_project_eq getEnvVars_def getLocalConfig_def getGlobalConfig_def
                      get_def)
  have lg: "getLocalConfig loaded_project = localConfig loaded_project"
    "getGlobalConfig loaded_project = globalConfig loaded_project"
    by (simp_all add: getLocalConfig_def getGlobalConfig_def)
  from getLocation_provenance [of loaded_project "''logLevel''", THEN conjunct1] layers(1)
  have a: "getLocation loaded_project ''logLevel'' = Some ENVIRONMENT" by simp
  from getLocation_provenance [of loaded_project "''defaultusername''", THEN conjunct1]
  have b: "getLocation loaded_project ''defaultusername'' = Some LOCAL"
    by (simp add: lg) (simp add: loaded_project_eq getEnvVars_def get_def)
  from getLocation_provenance [of loaded_project "''disableTelemetry''", THEN conjunct1]
  have c: "getLocation loaded_project ''disableTelemetry'' = Some GLOBAL"
    by (simp add: lg) (simp add: loaded_project_eq getEnvVars_def get_def)
  have e: "getEnvVars loaded_project ''apiVersion'' = None \<and>
            (\<forall>l. getLocalConfig loaded_project = Some l \<longrightarrow> \<not> truthy (get l ''apiVersion'')) \<and>
            (\<forall>g. getGlobalConfig loaded_project = Some g \<longrightarrow> \<not> truthy (get g ''apiVersion''))"
    by (simp add: loaded_project_eq getEnvVars_def getLocalConfig_def getGlobalConfig_def get_def)
  from getLocation_provenance
    [of loaded_project "''logLevel''", THEN conjunct2, THEN conjunct1] a
  have a': "''logLevel'' \<in> fst ` set (envVars loaded_project)" by blast
  from getLocation_provenance
    [of loaded_project "''defaultusername''", THEN conjunct2, THEN conjunct2, THEN conjunct1] b
  have b': "''defaultusername'' \<in> fst ` set (toObject (the (getLocalConfig loaded_project)))"
    by auto
  from getLocation_provenance
    [of loaded_project "''disableTelemetry''", THEN conjunct2, THEN conjunct2, THEN conjunct2,
     THEN conjunct1] c
  have c': "''disableTelemetry'' \<in> fst ` set (toObject (the (getGlobalConfig loaded_project)))"
    by auto
  from getLocation_provenance [of loaded_project "''disableTelemetry''" world_project fresh]
    c load_project
  have c'': "''disableTelemetry'' \<in> fst ` set (getConfig loaded_project)"
    by simp
  from getLocation_provenance [of loaded_project "''apiVersion''" world_project fresh]
    e load_project
  have d: "getLocation loaded_project ''apiVersion'' = None" by blast
  from layers a a' b b' c c' c'' d show ?thesis by blast
qed

subsection \<open>Keys outside the schema\<close>

text \<open>
  Claim C10, as stated, fails in its account of what the provenance queries return: a key
  outside the schema that the local file holds with the value false has no location,
  although a layer contains it.
\<close>

theorem unknown_key_location_counterexample:
  "create world_falsy = Inr loaded_falsy \<and>
   ''customFlag'' \<notin> key ` set (allowedProperties loaded_falsy) \<and>
   get (the (getLocalConfig loaded_falsy)) ''customFlag'' = Some (JBool False) \<and>
   map_of (getConfig loaded_falsy) ''customFlag'' = Some (JBool False) \<and>
   getLocation loaded_falsy ''customFlag'' = None"
  by (simp add: create_def load_falsy)
     (simp add: loaded_falsy_eq getConfig_def getLocation_def getEnvVars_def get_def
                getLocalConfig_def)

text \<open>
  Claim C10, amended. For a key outside the schema the provenance queries return without
  an error (they have no failing branch): after a load \<^verbatim>\<open>getLocation\<close> returns
  Local if the local store holds a truthy value for the key, else Global if the global store
  holds a truthy value, else null; \<^verbatim>\<open>getPath\<close>, for a plain key, returns the
  path of the first of the local and the global store whose contents hold a non-nil value
  for the key, else null. For the same key \<^verbatim>\<open>getPropertyValue\<close> and
  \<^verbatim>\<open>getInfo\<close> throw \<^verbatim>\<open>UnknownConfigKey\<close>.
\<close>

theorem unknown_key_queries:
  assumes "loadProperties w this0 = (None, this)"
    and "k \<notin> key ` set (allowedProperties this)"
  shows "getLocation this k =
           (if \<exists>l. getLocalConfig this = Some l \<and> truthy (get l k) then Some LOCAL
            else if \<exists>g. getGlobalConfig this = Some g \<and> truthy (get g k) then Some GLOBAL
            else None) \<and>
         (plainKey k \<longrightarrow>
            getPath this k =
              (if \<exists>l. getLocalConfig this = Some l \<and> \<not> isNil (get l k)
               then map_option getPath_store (getLocalConfig this)
               else if \<exists>g. getGlobalConfig this = Some g \<and> \<not> isNil (get g k)
               then map_option getPath_store (getGlobalConfig this)
               else None)) \<and>
         getPropertyValue this k = Inl (SfdxError (''Unknown config key: '' @ k) ''UnknownConfigKey'') \<and>
         getInfo this k = Inl (SfdxError (''Unknown config key: '' @ k) ''UnknownConfigKey'')"
proof -
  have e: "map_of (envVars this) k = None"
    using getEnvVars_loaded [OF assms(1), of k] assms(2) by (simp add: getEnvVars_def)
  have loc: "getLocation this k =
           (if \<exists>l. getLocalConfig this = Some l \<and> truthy (get l k) then Some LOCAL
            else if \<exists>g. getGlobalConfig this = Some g \<and> truthy (get g k) then Some GLOBAL
            else None)"
    using e
    by (auto simp: getLocation_def getEnvVars_def getLocalConfig_def getGlobalConfig_def
             split: option.splits)
  have path: "getPath this k =
           (if \<exists>l. getLocalConfig this = Some l \<and> \<not> isNil (get l k)
            then map_option getPath_store (getLocalConfig this)
            else if \<exists>g. getGlobalConfig this = Some g \<and> \<not> isNil (get g k)
            then map_option getPath_store (getGlobalConfig this)
            else None)"
    if "plainKey k"
    unfolding getPath_def isNilRef_getProperty_plain [OF that]
      isNilRef_lodash_get_contents_plain [OF that]
    using e
    by (auto simp: getLocalConfig_def getGlobalConfig_def split: option.splits)
  have val: "getPropertyValue this k =
      Inl (SfdxError (''Unknown config key: '' @ k) ''UnknownConfigKey'')"
    using assms(2) by (simp add: getPropertyValue_def allowed_iff)
  then have info: "getInfo this k =
      Inl (SfdxError (''Unknown config key: '' @ k) ''UnknownConfigKey'')"
    by (simp add: getInfo_def)
  from loc path val info show ?thesis by blast
qed

theorem unknown_key_queries_witness:
  "''totally-unknown-key'' \<notin> key ` set (allowedProperties loaded_no_project) \<and>
   getLocation loaded_no_project ''totally-unknown-key'' = Some GLOBAL \<and>
   getPath loaded_no_project ''totally-unknown-key'' = Some ''~/.sfdx/sfdx-config.json'' \<and>
   getPropertyValue loaded_no_project ''totally-unknown-key'' =
     Inl (SfdxError ''Unknown config key: totally-unknown-key'' ''UnknownConfigKey'') \<and>
   getInfo loaded_no_project ''totally-unknown-key'' =
     Inl (SfdxError ''Unknown config key: totally-unknown-key'' ''UnknownConfigKey'') \<and>
   getLocation loaded_no_project ''nowhere'' = None \<and>
   getPath loaded_no_project ''nowhere'' = None"
proof -
  have n: "''totally-unknown-key'' \<notin> key ` set (allowedProperties loaded_no_project)"
    "''nowhere'' \<notin> key ` set (allowedProperties loaded_no_project)"
    by (simp_all add: loaded_no_project_eq)
  have p: "plainKey ''totally-unknown-key''" "plainKey ''nowhere''"
    by (simp_all add: plainKey_def pathChar_def objectPrototypeNames_def)
  from unknown_key_queries [OF load_no_project n(1)] unknown_key_queries [OF load_no_project n(2)]
    n(1) p
  show ?thesis
    by (simp add: get_def getLocalConfig_def getGlobalConfig_def getPath_store_def)
       (simp add: loaded_no_project_eq)
qed

subsection \<open>The listing\<close>

lemma mapInfo_allowed:
  "set ks \<subseteq> key ` set (allowedProperties this) \<Longrightarrow>
   mapInfo this ks =
     Inr (map (\<lambda>k. \<lparr>ci_key = k, ci_location = getLocation this k,
                     ci_value = map_of (config this) k, ci_path = getPath this k\<rparr>) ks)"
  by (induction ks) (auto simp: getInfo_def getPropertyValue_def allowed_iff)

lemma mapInfo_unknown:
  "\<not> set ks \<subseteq> key ` set (allowedProperties this) \<Longrightarrow>
   \<exists>err. mapInfo this ks = Inl err \<and> err_name err = ''UnknownConfigKey''"
proof (induction ks)
  case Nil
  then show ?case by simp
next
  case (Cons k ks)
  show ?case
  proof (cases "k \<in> key ` set (allowedProperties this)")
    case True
    with Cons.prems have "\<not> set ks \<subseteq> key ` set (allowedProperties this)" by auto
    from Cons.IH [OF this] True show ?thesis
      by (auto simp: getInfo_def getPropertyValue_def allowed_iff)
  next
    case False
    then show ?thesis by (simp add: getInfo_def getPropertyValue_def allowed_iff)
  qed
qed

lemma map_insort_key: "map f (insort_key f x xs) = insort (f x) (map f xs)"
  by (induction xs) simp_all

lemma map_sort_key: "map f (sort_key f xs) = sort (map f xs)"
  by (induction xs) (simp_all add: map_insort_key)

lemma distinct_mergeConfigs_acc:
  "distinct (map fst acc) \<Longrightarrow> distinct (map fst (foldl lodash_merge acc ls))"
  by (induction ls arbitrary: acc) (simp_all add: lodash_merge_def distinct_baseMerge)

lemma distinct_mergeConfigs: "distinct (map fst (mergeConfigs ls))"
  unfolding mergeConfigs_def by (rule distinct_mergeConfigs_acc) simp

text \<open>
  Claim C3, as stated, fails: when a file layer brings a key into the snapshot that is not
  in the schema, \<^verbatim>\<open>getConfigInfo\<close> returns no record at all; it throws
  \<^verbatim>\<open>UnknownConfigKey\<close>, because \<^verbatim>\<open>getInfo\<close> asks
  \<^verbatim>\<open>getPropertyValue\<close> for every key of the snapshot.
\<close>

theorem getConfigInfo_unknown_key_counterexample:
  "create world_no_project = Inr loaded_no_project \<and>
   map fst (getConfig loaded_no_project) = [''logLevel'', ''totally-unknown-key''] \<and>
   getConfigInfo loaded_no_project =
     Inl (SfdxError ''Unknown config key: totally-unknown-key'' ''UnknownConfigKey'')"
  by (simp add: create_def load_no_project)
     (simp add: loaded_no_project_eq getConfig_def getConfigInfo_def getInfo_def
                getPropertyValue_def)

text \<open>
  Claim C3, amended. After a load, if every key of the snapshot is in the schema,
  \<^verbatim>\<open>getConfigInfo\<close> returns one record for every key of the snapshot, each the
  record that \<^verbatim>\<open>getInfo\<close> gives for its key, in strictly ascending order of the
  keys; if some key of the snapshot is not in the schema, it throws
  \<^verbatim>\<open>UnknownConfigKey\<close>.
\<close>

theorem getConfigInfo_sorted:
  assumes "loadProperties w this0 = (None, this)"
  shows "(fst ` set (getConfig this) \<subseteq> key ` set (allowedProperties this) \<longrightarrow>
            (\<exists>infos. getConfigInfo this = Inr infos \<and>
               map ci_key infos = sort (map fst (getConfig this)) \<and>
               sorted_wrt (<) (map ci_key infos) \<and>
               (\<forall>info \<in> set infos. getInfo this (ci_key info) = Inr info))) \<and>
         (\<not> fst ` set (getConfig this) \<subseteq> key ` set (allowedProperties this) \<longrightarrow>
            (\<exists>err. getConfigInfo this = Inl err \<and> err_name err = ''UnknownConfigKey''))"
proof (intro conjI impI)
  let ?info = "\<lambda>k. \<lparr>ci_key = k, ci_location = getLocation this k,
                     ci_value = map_of (config this) k, ci_path = getPath this k\<rparr>"
  let ?infos = "sort_key ci_key (map ?info (map fst (config this)))"
  assume sub: "fst ` set (getConfig this) \<subseteq> key ` set (allowedProperties this)"
  then have al: "set (map fst (config this)) \<subseteq> key ` set (allowedProperties this)"
    by (simp add: getConfig_def)
  have res: "getConfigInfo this = Inr ?infos"
    by (simp add: getConfigInfo_def mapInfo_allowed [OF al])
  have keys: "map ci_key ?infos = sort (map fst (getConfig this))"
    by (simp add: map_sort_key getConfig_def comp_def)
  have "distinct (map fst (config this))"
    by (simp add: layers_loaded(1) [OF assms] distinct_mergeConfigs)
  then have strict: "sorted_wrt (<) (map ci_key ?infos)"
    unfolding keys by (simp add: strict_sorted_iff getConfig_def)
  have each: "\<forall>info \<in> set ?infos. getInfo this (ci_key info) = Inr info"
    using al by (auto simp: getInfo_def getPropertyValue_def allowed_iff)
  from res keys strict each
  show "\<exists>infos. getConfigInfo this = Inr infos \<and>
               map ci_key infos = sort (map fst (getConfig this)) \<and>
               sorted_wrt (<) (map ci_key infos) \<and>
               (\<forall>info \<in> set infos. getInfo this (ci_key info) = Inr info)"
    by blast
next
  assume "\<not> fst ` set (getConfig this) \<subseteq> key ` set (allowedProperties this)"
  then have "\<not> set (map fst (config this)) \<subseteq> key ` set (allowedProperties this)"
    by (simp add: getConfig_def)
  from mapInfo_unknown [OF this]
  show "\<exists>err. getConfigInfo this = Inl err \<and> err_name err = ''UnknownConfigKey''"
    by (auto simp: getConfigInfo_def)
qed

theorem getConfigInfo_sorted_witness:
  "map fst (getConfig loaded_project) = [''defaultusername'', ''disableTelemetry'', ''logLevel''] \<and>
   getConfigInfo loaded_project =
     Inr [\<lparr>ci_key = ''defaultusername'', ci_location = Some LOCAL,
           ci_value = Some (JStr ''alice''), ci_path = Some ''./.sfdx/sfdx-config.json''\<rparr>,
          \<lparr>ci_key = ''disableTelemetry'', ci_location = Some GLOBAL,
           ci_value = Some (JBool False), ci_path = Some ''./.sfdx/sfdx-config.json''\<rparr>,
          \<lparr>ci_key = ''logLevel'', ci_location = Some ENVIRONMENT,
           ci_value = Some (JStr ''DEBUG''), ci_path = Some ''$SFDX_LOG_LEVEL''\<rparr>] \<and>
   sorted_wrt (<) [''defaultusername'', ''disableTelemetry'', ''logLevel''] \<and>
   (\<exists>err. getConfigInfo loaded_no_project = Inl err \<and> err_name err = ''UnknownConfigKey'')"
proof -
  have sub: "fst ` set (getConfig loaded_project) \<subseteq> key ` set (allowedProperties loaded_project)"
    by (simp add: loaded_project_eq getConfig_def)
  have nsub: "\<not> fst ` set (getConfig loaded_no_project) \<subseteq> key ` set (allowedProperties loaded_no_project)"
    by (simp add: loaded_no_project_eq getConfig_def)
  have val: "getConfigInfo loaded_project =
     Inr [\<lparr>ci_key = ''defaultusername'', ci_location = Some LOCAL,
           ci_value = Some (JStr ''alice''), ci_path = Some ''./.sfdx/sfdx-config.json''\<rparr>,
          \<lparr>ci_key = ''disableTelemetry'', ci_location = Some GLOBAL,
           ci_value = Some (JBool False), ci_path = Some ''./.sfdx/sfdx-config.json''\<rparr>,
          \<lparr>ci_key = ''logLevel'', ci_location = Some ENVIRONMENT,
           ci_value = Some (JStr ''DEBUG''), ci_path = Some ''$SFDX_LOG_LEVEL''\<rparr>]"
    by code_simp
  from getConfigInfo_sorted [OF load_project] sub
  obtain infos where "getConfigInfo loaded_project = Inr infos"
    and "sorted_wrt (<) (map ci_key infos)" by blast
  with val have s: "sorted_wrt (<) [''defaultusername'', ''disableTelemetry'', ''logLevel'']"
    by auto
  from getConfigInfo_sorted [OF load_no_project] nsub
  have e: "\<exists>err. getConfigInfo loaded_no_project = Inl err \<and> err_name err = ''UnknownConfigKey''"
    by blast
  have k: "map fst (getConfig loaded_project) = [''defaultusername'', ''disableTelemetry'', ''logLevel'']"
    by (simp add: loaded_project_eq getConfig_def)
  from k val s e show ?thesis by blast
qed

subsection \<open>A load that fails\<close>




end
